theory Spec2Isabelle
  imports Main
begin

section \<open>Values, documents and exceptions\<close>

text \<open>
  The harvester moves Python dictionaries between an OAI-PMH client and a MongoDB
  store. A dictionary is an association list (Python and BSON both keep the insertion
  order of the keys); its values are strings, integers, lists, nested dictionaries and
  the ObjectId that the driver generates for a document inserted without \<open>_id\<close>.
\<close>

datatype val =
    VStr string
  | VInt int
  | VOid nat
  | VList "val list"
  | VDoc "(string \<times> val) list"

type_synonym doc = "(string \<times> val) list"

text \<open>
  Exceptions. \<open>AdapterError c m\<close> is any exception raised by the OAI-PMH client, with
  \<open>c\<close> what \<open>str(type(e))\<close> gives and \<open>m\<close> what \<open>str(e)\<close> gives. \<open>KeyError k\<close> is
  Python's for a missing dictionary key. The other three are raised by pymongo:
  \<open>insert_one\<close> of a document whose \<open>_id\<close> is already in the collection
  (\<open>DuplicateKeyError\<close>), the same inside \<open>insert_many\<close> (\<open>BulkWriteError\<close>), and
  \<open>insert_many\<close> of an empty list (\<open>TypeError\<close>, "documents must be a non-empty list").
\<close>

datatype exn =
    AdapterError string string
  | KeyError string
  | DuplicateKeyError
  | BulkWriteError
  | TypeError

fun str_type :: "exn \<Rightarrow> string" where
  "str_type (AdapterError c m) = c"
| "str_type (KeyError k) = ''<class 'KeyError'>''"
| "str_type DuplicateKeyError = ''<class 'pymongo.errors.DuplicateKeyError'>''"
| "str_type BulkWriteError = ''<class 'pymongo.errors.BulkWriteError'>''"
| "str_type TypeError = ''<class 'TypeError'>''"

fun str_exn :: "exn \<Rightarrow> string" where
  "str_exn (AdapterError c m) = m"
| "str_exn (KeyError k) = [CHR 0x27] @ k @ [CHR 0x27]"
| "str_exn DuplicateKeyError = ''duplicate key error''"
| "str_exn BulkWriteError = ''batch op errors occurred''"
| "str_exn TypeError = ''documents must be a non-empty list''"

subsection \<open>Python dictionary operations\<close>

definition dict_get :: "doc \<Rightarrow> string \<Rightarrow> val option" where
  "dict_get d k = map_of d k"

text \<open>\<open>d[k] = v\<close>: an existing key keeps its place, a new key goes last.\<close>

fun dict_set :: "string \<Rightarrow> val \<Rightarrow> doc \<Rightarrow> doc" where
  "dict_set k v [] = [(k, v)]"
| "dict_set k v (p # ps) = (if fst p = k then (k, v) # ps else p # dict_set k v ps)"

definition dict_del :: "string \<Rightarrow> doc \<Rightarrow> doc" where
  "dict_del k d = filter (\<lambda>p. fst p \<noteq> k) d"

text \<open>\<open>d[k]\<close> as an expression: \<open>KeyError\<close> when the key is missing.\<close>

definition py_getitem :: "doc \<Rightarrow> string \<Rightarrow> exn + val" where
  "py_getitem d k = (case dict_get d k of None \<Rightarrow> Inl (KeyError k) | Some v \<Rightarrow> Inr v)"

section \<open>The world: store contents, history of writes, standard output\<close>

text \<open>
  A collection is addressed by (database name, collection name) and holds its documents
  in insertion order; a collection that does not exist is \<open>None\<close>. \<open>oplog\<close> is a history
  of the write calls the store has carried out, in call order (a call that raises leaves no
  entry); it is not read by the program. \<open>stdout\<close> is what \<open>print\<close> has written.
  Progress bars (tqdm) and joblib's verbose output go to stderr and are not modelled.
\<close>

type_synonym coll_key = "string \<times> string"

datatype store_op =
    Drop coll_key
  | InsertOne coll_key doc
  | InsertMany coll_key "doc list"
  | UpdateOne coll_key doc doc

datatype frag = S string | V val | N nat

type_synonym line = "frag list"

record world =
  colls :: "coll_key \<rightharpoonup> doc list"
  next_oid :: nat
  oplog :: "store_op list"
  stdout :: "line list"

text \<open>An action runs on the world and either raises or returns a value.\<close>

type_synonym 'a io = "world \<Rightarrow> (exn + 'a) \<times> world"

definition ret :: "'a \<Rightarrow> 'a io" where
  "ret a w = (Inr a, w)"

definition raise :: "exn \<Rightarrow> 'a io" where
  "raise e w = (Inl e, w)"

definition bnd :: "'a io \<Rightarrow> ('a \<Rightarrow> 'b io) \<Rightarrow> 'b io" where
  "bnd m f w = (case m w of (Inl e, w') \<Rightarrow> (Inl e, w') | (Inr a, w') \<Rightarrow> f a w')"

definition lift :: "exn + 'a \<Rightarrow> 'a io" where
  "lift r = (case r of Inl e \<Rightarrow> raise e | Inr a \<Rightarrow> ret a)"

definition py_print :: "line \<Rightarrow> unit io" where
  "py_print l w = (Inr (), w\<lparr>stdout := stdout w @ [l]\<rparr>)"

section \<open>The MongoDB primitives the program calls\<close>

definition docs_of :: "world \<Rightarrow> coll_key \<Rightarrow> doc list" where
  "docs_of w key = (case colls w key of None \<Rightarrow> [] | Some ds \<Rightarrow> ds)"

definition has_id :: "doc list \<Rightarrow> val \<Rightarrow> bool" where
  "has_id ds i = (Some i \<in> set (map (\<lambda>d. dict_get d ''_id'') ds))"

text \<open>\<open>collection.drop()\<close>: removes the collection; no error when it is absent.\<close>

definition mongo_drop :: "coll_key \<Rightarrow> unit io" where
  "mongo_drop key w =
     (Inr (), w\<lparr>colls := (colls w)(key := None), oplog := oplog w @ [Drop key]\<rparr>)"

text \<open>
  A document without \<open>_id\<close> gets a fresh ObjectId from the driver, stored as its first
  field.
\<close>

definition with_id :: "doc \<Rightarrow> doc io" where
  "with_id d w =
     (case dict_get d ''_id'' of
        Some i \<Rightarrow> (Inr d, w)
      | None \<Rightarrow> (Inr ((''_id'', VOid (next_oid w)) # d), w\<lparr>next_oid := Suc (next_oid w)\<rparr>))"

text \<open>
  \<open>collection.insert_one(d)\<close>: appends the document and creates the collection when it
  is absent; \<open>_id\<close> is unique within a collection, so a second document with the same
  \<open>_id\<close> raises \<open>DuplicateKeyError\<close> and stores nothing.
\<close>

definition id_taken :: "doc list \<Rightarrow> doc \<Rightarrow> bool" where
  "id_taken ds d = (case dict_get d ''_id'' of None \<Rightarrow> False | Some i \<Rightarrow> has_id ds i)"

definition insert_one :: "coll_key \<Rightarrow> doc \<Rightarrow> unit io" where
  "insert_one key d =
     bnd (with_id d) (\<lambda>d' w.
       if id_taken (docs_of w key) d' 
       then (Inl DuplicateKeyError, w)
       else (Inr (), w\<lparr>colls := (colls w)(key \<mapsto> docs_of w key @ [d']),
                        oplog := oplog w @ [InsertOne key d']\<rparr>))"

text \<open>
  \<open>collection.insert_many(ds)\<close>: the driver refuses an empty list with \<open>TypeError\<close>
  before anything is sent. Otherwise the documents are inserted in order (an ordered bulk
  write); the first one whose \<open>_id\<close> is already present stops the batch with
  \<open>BulkWriteError\<close>, the documents before it staying stored.
\<close>

fun assign_ids :: "doc list \<Rightarrow> doc list io" where
  "assign_ids [] = ret []"
| "assign_ids (d # ds) =
     bnd (with_id d) (\<lambda>d'. bnd (assign_ids ds) (\<lambda>ds'. ret (d' # ds')))"

fun accepted :: "doc list \<Rightarrow> doc list \<Rightarrow> doc list" where
  "accepted seen [] = []"
| "accepted seen (d # ds) =
     (if id_taken seen d then [] else d # accepted (seen @ [d]) ds)"

definition insert_many :: "coll_key \<Rightarrow> doc list \<Rightarrow> unit io" where
  "insert_many key ds =
     (if ds = [] then raise TypeError
      else bnd (assign_ids ds) (\<lambda>ds' w.
        let acc = accepted (docs_of w key) ds';
            w' = (if acc = [] then w
                  else w\<lparr>colls := (colls w)(key \<mapsto> docs_of w key @ acc),
                          oplog := oplog w @ [InsertMany key acc]\<rparr>)
        in if length acc < length ds' then (Inl BulkWriteError, w') else (Inr (), w')))"

text \<open>
  A filter document \<open>{k1: v1, ...}\<close> matches a document whose fields \<open>k1, ...\<close> hold
  exactly these values.
\<close>

definition matches :: "doc \<Rightarrow> doc \<Rightarrow> bool" where
  "matches flt d = list_all (\<lambda>(k, v). dict_get d k = Some v) flt"

text \<open>
  \<open>collection.update_one(flt, {"$set": upd})\<close>: the first document that matches gets the
  fields of \<open>upd\<close> set; with no match, or no collection, nothing changes.
\<close>

fun update_first :: "(doc \<Rightarrow> bool) \<Rightarrow> (doc \<Rightarrow> doc) \<Rightarrow> doc list \<Rightarrow> doc list" where
  "update_first p f [] = []"
| "update_first p f (d # ds) = (if p d then f d # ds else d # update_first p f ds)"

definition set_fields :: "doc \<Rightarrow> doc \<Rightarrow> doc" where
  "set_fields upd d = foldl (\<lambda>acc (k, v). dict_set k v acc) d upd"

definition update_one :: "coll_key \<Rightarrow> doc \<Rightarrow> doc \<Rightarrow> unit io" where
  "update_one key flt upd w =
     (Inr (), w\<lparr>colls := (case colls w key of
                             None \<Rightarrow> colls w
                           | Some ds \<Rightarrow> (colls w)(key \<mapsto> update_first (matches flt) (set_fields upd) ds)),
                 oplog := oplog w @ [UpdateOne key flt upd]\<rparr>)"

text \<open>
  \<open>list(collection.find(flt, {k: 0, ...}))\<close>: the matching documents in stored order,
  each without the excluded fields; the empty list for an absent collection.
\<close>

definition find_excluding :: "coll_key \<Rightarrow> doc \<Rightarrow> string list \<Rightarrow> doc list io" where
  "find_excluding key flt excl w =
     (Inr (map (\<lambda>d. foldl (\<lambda>acc k. dict_del k acc) d excl) (filter (matches flt) (docs_of w key))), w)"

text \<open>\<open>name in db.list_collection_names()\<close>.\<close>

definition collection_listed :: "world \<Rightarrow> string \<Rightarrow> string \<Rightarrow> bool" where
  "collection_listed w db name = (colls w (db, name) \<noteq> None)"

section \<open>The OAI-PMH client\<close>

text \<open>
  The client (pyoai) is outside the repository; the program sees it through four calls.
  Each may raise. The two listings return a lazy sequence: iterating it yields items
  (fetched page by page) and may raise after any number of them, so a sequence is the
  items it yields and the exception that ends it, if any. \<open>getRecord\<close> returns the
  header and the metadata; of the metadata the program reads \<open>getMap()\<close> only.
\<close>

record header =
  hdr_identifier :: string
  hdr_isDeleted :: bool

datatype 'a pyiter = PyIter (yields: "'a list") (ends_raising: "exn option")

record identity =
  repositoryName :: val
  adminEmails :: val
  baseURL :: val
  protocolVersion :: val
  earliestDatestamp :: val
  granularity :: val

record client =
  identify :: "exn + identity"
  listIdentifiers :: "val option \<Rightarrow> exn + header pyiter"
  listSets :: "exn + (string \<times> string) pyiter"
  getRecord :: "val \<Rightarrow> exn + header \<times> doc"

text \<open>\<open>Client(url, registry, force_http_get)\<close>: the client bound to an endpoint.\<close>

type_synonym remote = "string \<Rightarrow> bool \<Rightarrow> client"

text \<open>
  \<open>for x in it: acc.append(f(x))\<close>: the whole list when the iteration ends normally, the
  exception (the local list is lost) when it raises.
\<close>

definition collect :: "('a \<Rightarrow> 'b) \<Rightarrow> 'a pyiter \<Rightarrow> exn + 'b list" where
  "collect f it = (case ends_raising it of None \<Rightarrow> Inr (map f (yields it)) | Some e \<Rightarrow> Inl e)"

definition pure_bnd :: "exn + 'a \<Rightarrow> ('a \<Rightarrow> exn + 'b) \<Rightarrow> exn + 'b" where
  "pure_bnd r f = (case r of Inl e \<Rightarrow> Inl e | Inr a \<Rightarrow> f a)"

section \<open>OxomoCheckPoint (src/oxomo/CheckPoint.py)\<close>

text \<open>
  \<open>create\<close>: identify, replace the identity collection, list the record identifiers,
  replace the record ledger, list the sets, replace the set ledger. Nothing is caught.
\<close>

definition create :: "remote \<Rightarrow> string \<Rightarrow> string \<Rightarrow> string \<Rightarrow> bool \<Rightarrow> unit io" where
  "create rem base_url mongo_db mongo_collection force_http_get =
     (let client = rem base_url force_http_get in
      bnd (lift (identify client)) (\<lambda>idn.
      let info = [(''repository_name'', repositoryName idn),
                  (''admin_emails'', adminEmails idn),
                  (''base_url'', baseURL idn),
                  (''protocol_version'', protocolVersion idn),
                  (''earliest_datestamp'', earliestDatestamp idn),
                  (''granularity'', granularity idn)] in
      bnd (mongo_drop (mongo_db, mongo_collection @ ''_identity'')) (\<lambda>_.
      bnd (insert_one (mongo_db, mongo_collection @ ''_identity'') info) (\<lambda>_.
      bnd (lift (listIdentifiers client None)) (\<lambda>ids.
      bnd (py_print [S ''=== Getting Records ids from '', S base_url, S ''  for '',
                     S mongo_collection]) (\<lambda>_.
      bnd (lift (collect (\<lambda>i. [(''_id'', VStr (hdr_identifier i)), (''status'', VInt 0)]) ids))
        (\<lambda>identifiers.
      bnd (mongo_drop (mongo_db, mongo_collection @ ''_records_checkpoint'')) (\<lambda>_.
      bnd (insert_many (mongo_db, mongo_collection @ ''_records_checkpoint'') identifiers) (\<lambda>_.
      bnd (py_print [S ''=== Records CheckPoint total records found = '',
                     N (length identifiers)]) (\<lambda>_.
      bnd (lift (listSets client)) (\<lambda>sets_regs.
      bnd (py_print [S ''=== Getting Sets ids from '', S base_url, S ''  for '',
                     S mongo_collection]) (\<lambda>_.
      bnd (lift (collect (\<lambda>s. [(''_id'', VStr (fst s)), (''name'', VStr (snd s)),
                                 (''status'', VInt 0)]) sets_regs)) (\<lambda>sets.
      bnd (mongo_drop (mongo_db, mongo_collection @ ''_sets_checkpoint'')) (\<lambda>_.
      bnd (insert_many (mongo_db, mongo_collection @ ''_sets_checkpoint'') sets) (\<lambda>_.
      py_print [S ''=== Sets CheckPoint total sets found = '', N (length sets)])))))))))))))))"

definition exists :: "string \<Rightarrow> string \<Rightarrow> bool io" where
  "exists mongo_db mongo_collection w =
     (let ckp_rec = mongo_collection @ ''_records_checkpoint'';
          ckp_set = mongo_collection @ ''_sets_checkpoint''
      in (Inr (collection_listed w mongo_db ckp_rec \<and> collection_listed w mongo_db ckp_set), w))"

definition drop_checkpoint :: "string \<Rightarrow> string \<Rightarrow> unit io" where
  "drop_checkpoint mongo_db mongo_collection =
     bnd (mongo_drop (mongo_db, mongo_collection @ ''_identity'')) (\<lambda>_.
     bnd (mongo_drop (mongo_db, mongo_collection @ ''_records_checkpoint'')) (\<lambda>_.
     mongo_drop (mongo_db, mongo_collection @ ''_sets_checkpoint'')))"

definition update_record :: "string \<Rightarrow> string \<Rightarrow> doc \<Rightarrow> unit io" where
  "update_record mongo_db mongo_collection keys =
     update_one (mongo_db, mongo_collection @ ''_records_checkpoint'') keys [(''status'', VInt 1)]"

definition update_set :: "string \<Rightarrow> string \<Rightarrow> doc \<Rightarrow> unit io" where
  "update_set mongo_db mongo_collection keys =
     update_one (mongo_db, mongo_collection @ ''_sets_checkpoint'') keys [(''status'', VInt 1)]"

definition get_records_regs :: "string \<Rightarrow> string \<Rightarrow> doc list io" where
  "get_records_regs mongo_db mongo_collection =
     find_excluding (mongo_db, mongo_collection @ ''_records_checkpoint'')
       [(''status'', VInt 0)] [''status'']"

definition get_sets_regs :: "string \<Rightarrow> string \<Rightarrow> doc list io" where
  "get_sets_regs mongo_db mongo_collection =
     find_excluding (mongo_db, mongo_collection @ ''_sets_checkpoint'')
       [(''status'', VInt 0)] [''status'']"

section \<open>OxomoHarvester (src/oxomo/OxomoHarvester.py)\<close>

text \<open>
  The harvester object: the endpoint dictionary (url to collection name, in insertion
  order) and the database name fixed by the constructor. Its own MongoClient and the
  checkpoint's are connections to the same server, so both act on the one store.
\<close>

record harvester =
  endpoints :: "(string \<times> string) list"
  mongo_db :: string

definition process_record :: "harvester \<Rightarrow> client \<Rightarrow> val \<Rightarrow> string \<Rightarrow> string \<Rightarrow> unit io" where
  "process_record self client identifier mongo_db_arg mongo_collection =
     (case getRecord client identifier of
        Inl e \<Rightarrow>
          (let rec_doc = [(''_id'', identifier), (''instance'', VStr (str_type e)),
                          (''item_type'', VStr ''record''), (''msg'', VStr (str_exn e))] in
           bnd (insert_one (mongo_db_arg, mongo_collection @ ''_errors'') rec_doc) (\<lambda>_.
           bnd (update_record (mongo_db self) mongo_collection [(''_id'', identifier)]) (\<lambda>_.
           bnd (py_print [S ''=== ERROR ==='']) (\<lambda>_.
           bnd (py_print [S (str_exn e)]) (\<lambda>_.
           py_print [V identifier])))))
      | Inr raw_record \<Rightarrow>
          if hdr_isDeleted (fst raw_record) then
            (let rec_doc = [(''_id'', identifier)] in
             bnd (insert_one (mongo_db_arg, mongo_collection @ ''_deleted'') rec_doc) (\<lambda>_.
             bnd (update_record (mongo_db self) mongo_collection [(''_id'', identifier)]) (\<lambda>_.
             bnd (py_print [S ''=== WARNING ==='']) (\<lambda>_.
             py_print [S ''=== Found deleted record '', V identifier]))))
          else
            (let rec_doc = dict_set ''_id'' identifier (snd raw_record) in
             bnd (insert_one (mongo_db_arg, mongo_collection @ ''_records'') rec_doc) (\<lambda>_.
             update_record (mongo_db self) mongo_collection [(''_id'', identifier)])))"

text \<open>
  \<open>process_set\<close>: the \<open>try\<close> holds the call \<open>client.listIdentifiers(..., set=identifier["_id"])\<close>
  only; the loop over the sequence it returns comes after the \<open>try\<close>.
\<close>

definition process_set :: "harvester \<Rightarrow> client \<Rightarrow> doc \<Rightarrow> string \<Rightarrow> string \<Rightarrow> unit io" where
  "process_set self client identifier mongo_db_arg mongo_collection =
     (case pure_bnd (py_getitem identifier ''_id'') (\<lambda>i. listIdentifiers client (Some i)) of
        Inl e \<Rightarrow>
          (let rec_doc = [(''_id'', VDoc identifier), (''instance'', VStr (str_type e)),
                          (''item_type'', VStr ''set''), (''msg'', VStr (str_exn e))] in
           bnd (insert_one (mongo_db_arg, mongo_collection @ ''_errors'') rec_doc) (\<lambda>_.
           bnd (lift (py_getitem identifier ''_id'')) (\<lambda>i.
           bnd (update_set (mongo_db self) mongo_collection [(''_id'', i)]) (\<lambda>_.
           bnd (py_print [S ''=== ERROR ==='']) (\<lambda>_.
           bnd (py_print [S (str_exn e)]) (\<lambda>_.
           py_print [V (VDoc identifier)]))))))
      | Inr record_ids \<Rightarrow>
          bnd (lift (collect (\<lambda>record_id. VStr (hdr_identifier record_id)) record_ids)) (\<lambda>records.
          bnd (lift (py_getitem identifier ''_id'')) (\<lambda>i.
          bnd (lift (py_getitem identifier ''name'')) (\<lambda>n.
          let set_records = [(''_id'', i), (''name'', n), (''records'', VList records)] in
          bnd (insert_one (mongo_db_arg, mongo_collection @ ''_sets'') set_records) (\<lambda>_.
          bnd (lift (py_getitem identifier ''_id'')) (\<lambda>i'.
          update_set (mongo_db self) mongo_collection [(''_id'', i')]))))))"

text \<open>
  \<open>Parallel(n_jobs=jobs, backend='threading')(delayed(f)(x) for x in xs)\<close>: joblib runs
  the tasks on a pool of threads, waits for all of them and raises in the caller what a
  task raised. The model runs the tasks one after the other in the order of \<open>xs\<close> (the
  schedule of a single worker) and stops at the first task that raises; \<open>jobs\<close> has no
  other effect and is left out. \<open>run\<close> walks the endpoint dictionary in insertion order;
  its keys are distinct, so each (url, collection) pair is visited once.
\<close>

fun parallel_for :: "('a \<Rightarrow> unit io) \<Rightarrow> 'a list \<Rightarrow> unit io" where
  "parallel_for f [] = ret ()"
| "parallel_for f (x # xs) = bnd (f x) (\<lambda>_. parallel_for f xs)"

definition run_endpoint :: "harvester \<Rightarrow> remote \<Rightarrow> string \<times> string \<Rightarrow> unit io" where
  "run_endpoint self rem endpoint =
     (let url = fst endpoint; mongo_collection = snd endpoint in
      bnd (py_print [S ''=== Processing '', S mongo_collection, S '' from '', S url, S '' '']) (\<lambda>_.
      bnd (exists (mongo_db self) mongo_collection) (\<lambda>found.
      if found then
        (let client = rem url False in
         bnd (get_records_regs (mongo_db self) mongo_collection) (\<lambda>record_ids.
         bnd (parallel_for (\<lambda>rec_doc. bnd (lift (py_getitem rec_doc ''_id'')) (\<lambda>i.
                process_record self client i (mongo_db self) mongo_collection)) record_ids) (\<lambda>_.
         bnd (get_sets_regs (mongo_db self) mongo_collection) (\<lambda>set_ids.
         parallel_for (\<lambda>set_id. process_set self client set_id (mongo_db self) mongo_collection)
           set_ids))))
      else
        bnd (py_print [S ''*** Error: checkpoint for '', S url,
                       S '' not found, create it first with ...'']) (\<lambda>_.
        py_print [S ''*** Omitting '', S url, S '' '', S mongo_collection]))))"

fun run_endpoints :: "harvester \<Rightarrow> remote \<Rightarrow> (string \<times> string) list \<Rightarrow> unit io" where
  "run_endpoints self rem [] = ret ()"
| "run_endpoints self rem (endpoint # rest) =
     bnd (run_endpoint self rem endpoint) (\<lambda>_. run_endpoints self rem rest)"

definition run :: "harvester \<Rightarrow> remote \<Rightarrow> unit io" where
  "run self rem = run_endpoints self rem (endpoints self)"

section \<open>Vocabulary for the properties\<close>

text \<open>Ledger entries as \<open>create\<close> writes them; status 0 is pending, 1 is done.\<close>

definition record_entry :: "val \<times> int \<Rightarrow> doc" where
  "record_entry e = [(''_id'', fst e), (''status'', VInt (snd e))]"

definition set_entry :: "val \<times> val \<times> int \<Rightarrow> doc" where
  "set_entry e = [(''_id'', fst e), (''name'', fst (snd e)), (''status'', VInt (snd (snd e)))]"

text \<open>What \<open>create\<close> writes: the identity document and the two ledgers, all pending.\<close>

definition identity_info :: "identity \<Rightarrow> doc" where
  "identity_info idn =
     [(''repository_name'', repositoryName idn), (''admin_emails'', adminEmails idn),
      (''base_url'', baseURL idn), (''protocol_version'', protocolVersion idn),
      (''earliest_datestamp'', earliestDatestamp idn), (''granularity'', granularity idn)]"

definition identity_writes :: "string \<Rightarrow> string \<Rightarrow> nat \<Rightarrow> identity \<Rightarrow> store_op list" where
  "identity_writes db c n idn =
     [Drop (db, c @ ''_identity''),
      InsertOne (db, c @ ''_identity'') ((''_id'', VOid n) # identity_info idn)]"

definition record_ledger :: "header list \<Rightarrow> doc list" where
  "record_ledger hs = map (\<lambda>h. record_entry (VStr (hdr_identifier h), 0)) hs"

definition set_ledger :: "(string \<times> string) list \<Rightarrow> doc list" where
  "set_ledger ss = map (\<lambda>s. set_entry (VStr (fst s), VStr (snd s), 0)) ss"

definition record_writes :: "string \<Rightarrow> string \<Rightarrow> header list \<Rightarrow> store_op list" where
  "record_writes db c hs =
     [Drop (db, c @ ''_records_checkpoint''),
      InsertMany (db, c @ ''_records_checkpoint'') (record_ledger hs)]"

definition set_writes :: "string \<Rightarrow> string \<Rightarrow> (string \<times> string) list \<Rightarrow> store_op list" where
  "set_writes db c ss =
     [Drop (db, c @ ''_sets_checkpoint''),
      InsertMany (db, c @ ''_sets_checkpoint'') (set_ledger ss)]"

definition records_out :: "string \<Rightarrow> string \<Rightarrow> nat \<Rightarrow> line list" where
  "records_out url c n =
     [[S ''=== Getting Records ids from '', S url, S ''  for '', S c],
      [S ''=== Records CheckPoint total records found = '', N n]]"

text \<open>
  The outcome of fetching record \<open>i\<close>, in the words of the specification: the sink
  (suffix of the collection name) and the document that goes there. An Error Record when
  \<open>getRecord\<close> raises, a Deletion Marker when the header is flagged deleted, otherwise
  the Harvested Record (the metadata map with \<open>_id\<close> set).
\<close>

definition error_record :: "val \<Rightarrow> string \<Rightarrow> exn \<Rightarrow> doc" where
  "error_record i kind e =
     [(''_id'', i), (''instance'', VStr (str_type e)), (''item_type'', VStr kind),
      (''msg'', VStr (str_exn e))]"

definition record_outcome :: "client \<Rightarrow> val \<Rightarrow> string \<times> doc" where
  "record_outcome client i =
     (case getRecord client i of
        Inl e \<Rightarrow> (''_errors'', error_record i ''record'' e)
      | Inr hm \<Rightarrow> if hdr_isDeleted (fst hm) then (''_deleted'', [(''_id'', i)])
                  else (''_records'', dict_set ''_id'' i (snd hm)))"

text \<open>
  The outcome of processing the set item \<open>s\<close>: an Error Record of kind set when the
  listing call raises (or the item has no \<open>_id\<close> to list by), the Harvested Set
  \<open>{_id, name, records}\<close> when the member sequence is read to its end, and none when
  reading the sequence raises or the item has no name.
\<close>

definition set_outcome :: "client \<Rightarrow> doc \<Rightarrow> (string \<times> doc) option" where
  "set_outcome client s =
     (case dict_get s ''_id'' of
        None \<Rightarrow> Some (''_errors'', error_record (VDoc s) ''set'' (KeyError ''_id''))
      | Some i \<Rightarrow>
          (case listIdentifiers client (Some i) of
             Inl e \<Rightarrow> Some (''_errors'', error_record (VDoc s) ''set'' e)
           | Inr it \<Rightarrow>
               (case (ends_raising it, dict_get s ''name'') of
                  (None, Some n) \<Rightarrow>
                    Some (''_sets'', [(''_id'', i), (''name'', n),
                      (''records'', VList (map (\<lambda>h. VStr (hdr_identifier h)) (yields it)))])
                | _ \<Rightarrow> None)))"

definition done_update :: "string \<Rightarrow> string \<Rightarrow> string \<Rightarrow> val \<Rightarrow> store_op" where
  "done_update db c ledger i =
     UpdateOne (db, c @ ledger) [(''_id'', i)] [(''status'', VInt 1)]"

text \<open>
  The effect of a logged write on the collections, and of a sequence of them. The store
  after the first \<open>n\<close> writes of a call is \<open>replay\<close> of the first \<open>n\<close> log entries: the
  state an interruption at that point leaves behind.
\<close>

fun apply_op :: "store_op \<Rightarrow> (coll_key \<rightharpoonup> doc list) \<Rightarrow> (coll_key \<rightharpoonup> doc list)" where
  "apply_op (Drop k) m = m(k := None)"
| "apply_op (InsertOne k d) m = m(k \<mapsto> (case m k of None \<Rightarrow> [] | Some ds \<Rightarrow> ds) @ [d])"
| "apply_op (InsertMany k new) m = m(k \<mapsto> (case m k of None \<Rightarrow> [] | Some ds \<Rightarrow> ds) @ new)"
| "apply_op (UpdateOne k flt upd) m =
     (case m k of None \<Rightarrow> m
      | Some ds \<Rightarrow> m(k \<mapsto> update_first (matches flt) (set_fields upd) ds))"



definition replay :: "store_op list \<Rightarrow> (coll_key \<rightharpoonup> doc list) \<Rightarrow> (coll_key \<rightharpoonup> doc list)" where
  "replay ops m = foldl (\<lambda>acc op. apply_op op acc) m ops"

text \<open>
  The world after the writes \<open>ops\<close>, \<open>n\<close> generated ObjectIds and the output \<open>out\<close>.
\<close>

definition after_writes :: "store_op list \<Rightarrow> nat \<Rightarrow> line list \<Rightarrow> world \<Rightarrow> world" where
  "after_writes ops n out w =
     w\<lparr>colls := replay ops (colls w), next_oid := next_oid w + n, oplog := oplog w @ ops,
       stdout := stdout w @ out\<rparr>"

text \<open>
  \<open>kept old new\<close>: every document of \<open>old\<close> is still there, at its place and with its
  \<open>_id\<close>, and is done if it was done. \<open>done_kept\<close> says so of every collection.
\<close>

definition is_done :: "doc \<Rightarrow> bool" where
  "is_done d = (dict_get d ''status'' = Some (VInt 1))"

fun kept :: "doc list \<Rightarrow> doc list \<Rightarrow> bool" where
  "kept [] new = True"
| "kept (d # ds) [] = False"
| "kept (d # ds) (d' # ds') =
     (dict_get d' ''_id'' = dict_get d ''_id'' \<and> (is_done d \<longrightarrow> is_done d') \<and> kept ds ds')"

definition colls_kept :: "(coll_key \<rightharpoonup> doc list) \<Rightarrow> (coll_key \<rightharpoonup> doc list) \<Rightarrow> bool" where
  "colls_kept m m' =
     (\<forall>k. case m k of None \<Rightarrow> True
          | Some ds \<Rightarrow> (case m' k of None \<Rightarrow> False | Some ds' \<Rightarrow> kept ds ds'))"

definition done_kept :: "world \<Rightarrow> world \<Rightarrow> bool" where
  "done_kept w w' = colls_kept (colls w) (colls w')"

text \<open>The writes of a harvesting run: inserts, and updates that set status 1.\<close>

fun harvest_op :: "store_op \<Rightarrow> bool" where
  "harvest_op (InsertOne k d) = True"
| "harvest_op (UpdateOne k flt upd) = (upd = [(''status'', VInt 1)])"
| "harvest_op (Drop k) = False"
| "harvest_op (InsertMany k ds) = False"

section \<open>A test double for the adapter and the scenario of the specification\<close>

definition hA :: header where "hA = \<lparr>hdr_identifier = ''A'', hdr_isDeleted = False\<rparr>"
definition hB :: header where "hB = \<lparr>hdr_identifier = ''B'', hdr_isDeleted = True\<rparr>"
definition hC :: header where "hC = \<lparr>hdr_identifier = ''C'', hdr_isDeleted = False\<rparr>"

definition demo_identity :: identity where
  "demo_identity =
     \<lparr>repositoryName = VStr ''Repo'', adminEmails = VList [VStr ''admin@repo''],
      baseURL = VStr ''http://repo/oai'', protocolVersion = VStr ''2.0'',
      earliestDatestamp = VStr ''2000-01-01'', granularity = VStr ''YYYY-MM-DD''\<rparr>"

definition no_such_id :: exn where
  "no_such_id = AdapterError ''<class 'oaipmh.error.IdDoesNotExistError'>'' ''no such id''"

definition timed_out :: exn where
  "timed_out = AdapterError ''<class 'urllib.error.URLError'>'' ''timed out''"

text \<open>
  The adapter of the scenario: \<open>A\<close> is a live record, \<open>B\<close> is deleted, fetching \<open>C\<close>
  raises, set \<open>s1\<close> has the members \<open>A\<close> and \<open>B\<close>.
\<close>

definition demo_client :: client where
  "demo_client =
     \<lparr>identify = Inr demo_identity,
      listIdentifiers = (\<lambda>s. case s of
          None \<Rightarrow> Inr (PyIter [hA, hB, hC] None)
        | Some i \<Rightarrow> if i = VStr ''s1'' then Inr (PyIter [hA, hB] None) else Inl no_such_id),
      listSets = Inr (PyIter [(''s1'', ''Set One'')] None),
      getRecord = (\<lambda>i. if i = VStr ''A'' then Inr (hA, [(''title'', VList [VStr ''T''])])
                        else if i = VStr ''B'' then Inr (hB, [])
                        else Inl no_such_id)\<rparr>"

text \<open>
  The same endpoint when the second page of the member listing of \<open>s1\<close> cannot be
  fetched (the sequence yields \<open>A\<close>, then raises), and when the listing call itself fails.
\<close>

definition flaky_client :: client where
  "flaky_client =
     demo_client\<lparr>listIdentifiers := (\<lambda>s. Inr (PyIter [hA] (Some timed_out)))\<rparr>"

definition down_client :: client where
  "down_client = demo_client\<lparr>listIdentifiers := (\<lambda>s. Inl timed_out)\<rparr>"

text \<open>
  Endpoints that fail during \<open>create\<close>: one that does not answer \<open>identify\<close>, one whose
  set listing fails, one that lists no records, one that lists no sets.
\<close>

definition unreachable_client :: client where
  "unreachable_client = demo_client\<lparr>identify := Inl timed_out\<rparr>"

definition sets_down_client :: client where
  "sets_down_client = demo_client\<lparr>listSets := Inl timed_out\<rparr>"

definition empty_client :: client where
  "empty_client = demo_client\<lparr>listIdentifiers := (\<lambda>s. Inr (PyIter [] None))\<rparr>"

definition no_sets_client :: client where
  "no_sets_client = demo_client\<lparr>listSets := Inr (PyIter [] None)\<rparr>"

definition remote_of :: "client \<Rightarrow> remote" where
  "remote_of client url force_http_get = client"

definition set_item :: doc where
  "set_item = [(''_id'', VStr ''s1''), (''name'', VStr ''Set One'')]"

definition demo_remote :: remote where
  "demo_remote url force_http_get = demo_client"

definition demo_harvester :: harvester where
  "demo_harvester = \<lparr>endpoints = [(''http://repo/oai'', ''uni'')], mongo_db = ''dspace''\<rparr>"

definition empty_world :: world where
  "empty_world = \<lparr>colls = Map.empty, next_oid = 0, oplog = [], stdout = []\<rparr>"

text \<open>The store right after \<open>create\<close> ran against the scenario's adapter.\<close>

definition created_world :: world where
  "created_world = snd (create demo_remote ''http://repo/oai'' ''dspace'' ''uni'' True empty_world)"

text \<open>
  The store between the outcome write and the ledger update of record \<open>A\<close>: what an
  interruption at that point leaves behind.
\<close>

definition interrupted_world :: world where
  "interrupted_world =
     snd (insert_one (''dspace'', ''uni_records'')
            [(''title'', VList [VStr ''T'']), (''_id'', VStr ''A'')] created_world)"

text \<open>
  The store after record \<open>A\<close> alone was processed to its end: its outcome is stored and
  its ledger entry is done, \<open>B\<close>, \<open>C\<close> and \<open>s1\<close> are pending.
\<close>

definition after_A_world :: world where
  "after_A_world =
     snd (process_record demo_harvester demo_client (VStr ''A'') ''dspace'' ''uni'' created_world)"

definition harvested_world :: world where
  "harvested_world = snd (run demo_harvester demo_remote created_world)"

definition created_colls :: "coll_key \<rightharpoonup> doc list" where
  "created_colls =
     [(''dspace'', ''uni_identity'') \<mapsto>
        [[(''_id'', VOid 0), (''repository_name'', VStr ''Repo''),
          (''admin_emails'', VList [VStr ''admin@repo'']),
          (''base_url'', VStr ''http://repo/oai''),
          (''protocol_version'', VStr ''2.0''),
          (''earliest_datestamp'', VStr ''2000-01-01''),
          (''granularity'', VStr ''YYYY-MM-DD'')]],
      (''dspace'', ''uni_records_checkpoint'') \<mapsto>
        [record_entry (VStr ''A'', 0), record_entry (VStr ''B'', 0), record_entry (VStr ''C'', 0)],
      (''dspace'', ''uni_sets_checkpoint'') \<mapsto> [set_entry (VStr ''s1'', VStr ''Set One'', 0)]]"

section \<open>Reasoning about actions\<close>

lemmas io_defs = bnd_def ret_def raise_def lift_def py_print_def Let_def

lemmas store_defs = mongo_drop_def with_id_def insert_one_def insert_many_def update_one_def
  find_excluding_def docs_of_def has_id_def id_taken_def matches_def set_fields_def
  collection_listed_def

lemmas ckp_defs = exists_def get_records_regs_def get_sets_regs_def update_record_def
  update_set_def

lemmas run_defs = run_def run_endpoint_def process_record_def process_set_def py_getitem_def
  pure_bnd_def collect_def dict_del_def

lemmas demo_defs = demo_remote_def demo_client_def demo_identity_def hA_def hB_def hC_def
  no_such_id_def timed_out_def demo_harvester_def empty_world_def flaky_client_def
  down_client_def set_item_def unreachable_client_def sets_down_client_def empty_client_def
  no_sets_client_def remote_of_def


lemma dict_get_dict_set_same: "dict_get (dict_set k v d) k = Some v"
  by (induction d) (auto simp: dict_get_def)

lemma dict_get_dict_set_other: "k' \<noteq> k \<Longrightarrow> dict_get (dict_set k v d) k' = dict_get d k'"
  by (induction d) (auto simp: dict_get_def)

lemma update_one_apply:
  "update_one k f u w =
     (Inr (), w\<lparr>colls := apply_op (UpdateOne k f u) (colls w), oplog := oplog w @ [UpdateOne k f u]\<rparr>)"
  by (simp add: update_one_def)

lemma dict_get_Nil: "dict_get [] k = None"
  by (simp add: dict_get_def)

lemma dict_get_Cons: "dict_get ((k, v) # d) k' = (if k = k' then Some v else dict_get d k')"
  by (simp add: dict_get_def)

lemmas dict_get_simps = dict_get_Nil dict_get_Cons

lemma insert_one_eval:
  "insert_one key d w =
     (case dict_get d ''_id'' of
        Some i \<Rightarrow>
          if has_id (docs_of w key) i then (Inl DuplicateKeyError, w)
          else (Inr (), w\<lparr>colls := apply_op (InsertOne key d) (colls w),
                           oplog := oplog w @ [InsertOne key d]\<rparr>)
      | None \<Rightarrow>
          if has_id (docs_of w key) (VOid (next_oid w))
          then (Inl DuplicateKeyError, w\<lparr>next_oid := Suc (next_oid w)\<rparr>)
          else (Inr (), w\<lparr>colls := apply_op (InsertOne key ((''_id'', VOid (next_oid w)) # d)) (colls w),
                           next_oid := Suc (next_oid w),
                           oplog := oplog w @ [InsertOne key ((''_id'', VOid (next_oid w)) # d)]\<rparr>))"
  by (simp add: insert_one_def bnd_def id_taken_def with_id_def docs_of_def dict_get_def
      split: option.splits)

lemma record_outcome_id: "record_outcome client i = (sfx, d) \<Longrightarrow> dict_get d ''_id'' = Some i"
  by (cases "getRecord client i")
     (auto simp: record_outcome_def error_record_def dict_get_dict_set_same split: if_splits,
      auto simp: dict_get_def)

lemma record_outcome_sfx:
  "record_outcome client i = (sfx, d) \<Longrightarrow> sfx \<in> {''_errors'', ''_deleted'', ''_records''}"
  by (cases "getRecord client i") (auto simp: record_outcome_def split: if_splits)

lemma process_record_unfold:
  "record_outcome client i = (sfx, d) \<Longrightarrow>
   \<exists>tail out. process_record self client i db c =
     bnd (insert_one (db, c @ sfx) d) (\<lambda>_.
     bnd (update_record (mongo_db self) c [(''_id'', i)]) (\<lambda>_. tail)) \<and>
     (\<forall>w. tail w = (Inr (), w\<lparr>stdout := stdout w @ out\<rparr>))"
proof (cases "getRecord client i")
  case (Inl e)
  assume "record_outcome client i = (sfx, d)"
  with Inl have *: "sfx = ''_errors''" "d = error_record i ''record'' e"
    by (auto simp: record_outcome_def)
  show ?thesis unfolding *
    by (intro exI[where x="bnd (py_print [S ''=== ERROR ==='']) (\<lambda>_.
           bnd (py_print [S (str_exn e)]) (\<lambda>_.  py_print [V i]))"]
           exI[where x="[[S ''=== ERROR ===''], [S (str_exn e)], [V i]]"])
       (simp add: process_record_def Inl error_record_def bnd_def py_print_def)
next
  case (Inr hm)
  assume a: "record_outcome client i = (sfx, d)"
  show ?thesis
  proof (cases "hdr_isDeleted (fst hm)")
    case True
    with a Inr have *: "sfx = ''_deleted''" "d = [(''_id'', i)]"
      by (auto simp: record_outcome_def)
    show ?thesis unfolding *
      by (intro exI[where x="bnd (py_print [S ''=== WARNING ==='']) (\<lambda>_.
             py_print [S ''=== Found deleted record '', V i])"]
             exI[where x="[[S ''=== WARNING ===''], [S ''=== Found deleted record '', V i]]"])
         (simp add: process_record_def Inr True bnd_def py_print_def)
  next
    case False
    with a Inr have *: "sfx = ''_records''" "d = dict_set ''_id'' i (snd hm)"
      by (auto simp: record_outcome_def)
    have "\<And>m. bnd m (\<lambda>_. ret ()) = (m :: unit io)"
      by (rule ext) (auto simp: bnd_def ret_def split: prod.splits sum.splits)
    then show ?thesis unfolding *
      by (intro exI[where x="ret ()"] exI[where x="[]"])
         (simp add: process_record_def Inr False ret_def)
  qed
qed

lemma process_record_dup:
  assumes "record_outcome client i = (sfx, d)" and "has_id (docs_of w (db, c @ sfx)) i"
  shows "process_record self client i db c w = (Inl DuplicateKeyError, w)"
proof -
  from process_record_unfold[OF assms(1), of self db c] obtain tail where
    u: "process_record self client i db c =
     bnd (insert_one (db, c @ sfx) d) (\<lambda>_.
     bnd (update_record (mongo_db self) c [(''_id'', i)]) (\<lambda>_. tail))" by blast
  show ?thesis
    by (simp add: u bnd_def insert_one_eval record_outcome_id[OF assms(1)] assms(2))
qed

lemma process_record_fresh:
  assumes "record_outcome client i = (sfx, d)" and "\<not> has_id (docs_of w (db, c @ sfx)) i"
  shows "\<exists>out. process_record self client i db c w =
       (Inr (), w\<lparr>colls := replay [InsertOne (db, c @ sfx) d,
                                   done_update (mongo_db self) c ''_records_checkpoint'' i] (colls w),
                   oplog := oplog w @ [InsertOne (db, c @ sfx) d,
                         done_update (mongo_db self) c ''_records_checkpoint'' i],
                   stdout := stdout w @ out\<rparr>)"
proof -
  from process_record_unfold[OF assms(1), of self db c] obtain tail out where
    u: "process_record self client i db c =
     bnd (insert_one (db, c @ sfx) d) (\<lambda>_.
     bnd (update_record (mongo_db self) c [(''_id'', i)]) (\<lambda>_. tail))"
    and t: "\<And>w. tail w = (Inr (), w\<lparr>stdout := stdout w @ out\<rparr>)" by blast
  have h: "process_record self client i db c w =
       (Inr (), w\<lparr>colls := replay [InsertOne (db, c @ sfx) d,
                                   done_update (mongo_db self) c ''_records_checkpoint'' i] (colls w),
                   oplog := oplog w @ [InsertOne (db, c @ sfx) d,
                         done_update (mongo_db self) c ''_records_checkpoint'' i],
                   stdout := stdout w @ out\<rparr>)"
    by (simp add: u bnd_def insert_one_eval record_outcome_id[OF assms(1)] assms(2) t
          update_record_def update_one_apply done_update_def replay_def del: apply_op.simps)
  show ?thesis by (rule exI[where x=out]) (fact h)
qed


lemma process_set_cases:
  "\<exists>r ops out. process_set self client s db c w =
      (r, w\<lparr>colls := replay ops (colls w), oplog := oplog w @ ops, stdout := stdout w @ out\<rparr>) \<and>
      (ops = [] \<and> r \<noteq> Inr () \<or>
       (\<exists>d. ops = [InsertOne (db, c @ ''_errors'') d] \<and> r \<noteq> Inr ()) \<or>
       (\<exists>sfx d i. (sfx = ''_errors'' \<or> sfx = ''_sets'') \<and> r = Inr () \<and>
          dict_get s ''_id'' = Some i \<and>
          ops = [InsertOne (db, c @ sfx) d, done_update (mongo_db self) c ''_sets_checkpoint'' i]))"
proof (cases "dict_get s ''_id''")
  case None
  let ?d = "error_record (VDoc s) ''set'' (KeyError ''_id'')"
  show ?thesis
  proof (cases "has_id (docs_of w (db, c @ ''_errors'')) (VDoc s)")
    case True
    have "process_set self client s db c w = (Inl DuplicateKeyError, w)"
      using None True
      by (simp add: process_set_def pure_bnd_def py_getitem_def bnd_def insert_one_eval dict_get_simps)
    then show ?thesis
      by (intro exI[where x="Inl DuplicateKeyError"] exI[where x="[]"]) (simp add: replay_def)
  next
    case False
    have "process_set self client s db c w =
        (Inl (KeyError ''_id''), w\<lparr>colls := replay [InsertOne (db, c @ ''_errors'') ?d] (colls w),
             oplog := oplog w @ [InsertOne (db, c @ ''_errors'') ?d], stdout := stdout w @ []\<rparr>)"
      using None False
      by (simp add: process_set_def pure_bnd_def py_getitem_def bnd_def lift_def raise_def
            insert_one_eval dict_get_simps replay_def error_record_def
            del: apply_op.simps)
    then show ?thesis
      by (intro exI[where x="Inl (KeyError ''_id'')"] exI[where x="[InsertOne (db, c @ ''_errors'') ?d]"] exI[where x="[]"]) simp
  qed
next
  case (Some i)
  show ?thesis
  proof (cases "listIdentifiers client (Some i)")
    case (Inl e)
    let ?d = "error_record (VDoc s) ''set'' e"
    show ?thesis
    proof (cases "has_id (docs_of w (db, c @ ''_errors'')) (VDoc s)")
      case True
      have "process_set self client s db c w = (Inl DuplicateKeyError, w)"
        using Some Inl True
        by (simp add: process_set_def pure_bnd_def py_getitem_def bnd_def insert_one_eval dict_get_simps)
      then show ?thesis
        by (intro exI[where x="Inl DuplicateKeyError"] exI[where x="[]"]) (simp add: replay_def)
    next
      case False
      let ?ops = "[InsertOne (db, c @ ''_errors'') ?d, done_update (mongo_db self) c ''_sets_checkpoint'' i]"
      have "process_set self client s db c w =
        (Inr (), w\<lparr>colls := replay ?ops (colls w),
             oplog := oplog w @ ?ops, stdout := stdout w @ [[S ''=== ERROR ===''], [S (str_exn e)], [V (VDoc s)]]\<rparr>)"
        using Some Inl False
        by (simp add: process_set_def pure_bnd_def py_getitem_def bnd_def lift_def ret_def
            insert_one_eval dict_get_simps replay_def error_record_def
            update_set_def update_one_apply done_update_def py_print_def
            del: apply_op.simps)
      with Some show ?thesis
        by (intro exI[where x="Inr ()"] exI[where x="?ops"] exI[where x="[[S ''=== ERROR ===''], [S (str_exn e)], [V (VDoc s)]]"]) auto
    qed
  next
    case (Inr it)
    show ?thesis
    proof (cases "ends_raising it")
      case (Some e)
      have "process_set self client s db c w = (Inl e, w)"
        using \<open>dict_get s ''_id'' = Some i\<close> Inr Some
        by (simp add: process_set_def pure_bnd_def py_getitem_def bnd_def lift_def raise_def collect_def)
      then show ?thesis
        by (intro exI[where x="Inl e"] exI[where x="[]"]) (simp add: replay_def)
    next
      case None
      show ?thesis
      proof (cases "dict_get s ''name''")
        case None
        have "process_set self client s db c w = (Inl (KeyError ''name''), w)"
          using \<open>dict_get s ''_id'' = Some i\<close> Inr None \<open>ends_raising it = None\<close>
          by (simp add: process_set_def pure_bnd_def py_getitem_def bnd_def lift_def raise_def ret_def collect_def)
        then show ?thesis
          by (intro exI[where x="Inl (KeyError ''name'')"] exI[where x="[]"]) (simp add: replay_def)
      next
        case (Some n)
        let ?d = "[(''_id'', i), (''name'', n), (''records'', VList (map (\<lambda>h. VStr (hdr_identifier h)) (yields it)))]"
        have id: "dict_get ?d ''_id'' = Some i" by (simp add: dict_get_def)
        show ?thesis
        proof (cases "has_id (docs_of w (db, c @ ''_sets'')) i")
          case True
          have "process_set self client s db c w = (Inl DuplicateKeyError, w)"
            using \<open>dict_get s ''_id'' = Some i\<close> Inr Some \<open>ends_raising it = None\<close> True
            by (simp add: process_set_def pure_bnd_def py_getitem_def bnd_def lift_def ret_def collect_def
                 insert_one_eval dict_get_simps id)
          then show ?thesis
            by (intro exI[where x="Inl DuplicateKeyError"] exI[where x="[]"]) (simp add: replay_def)
        next
          case False
          let ?ops = "[InsertOne (db, c @ ''_sets'') ?d, done_update (mongo_db self) c ''_sets_checkpoint'' i]"
          have "process_set self client s db c w =
             (Inr (), w\<lparr>colls := replay ?ops (colls w),
             oplog := oplog w @ ?ops, stdout := stdout w @ []\<rparr>)"
            using \<open>dict_get s ''_id'' = Some i\<close> Inr Some \<open>ends_raising it = None\<close> False
            by (simp add: process_set_def pure_bnd_def py_getitem_def bnd_def lift_def ret_def collect_def
                 insert_one_eval dict_get_simps id replay_def
                 update_set_def update_one_apply done_update_def
                 del: apply_op.simps)
          with \<open>dict_get s ''_id'' = Some i\<close> show ?thesis
            by (intro exI[where x="Inr ()"] exI[where x="?ops"] exI[where x="[]"]) auto
        qed
      qed
    qed
  qed
qed



lemma process_record_cases:
  "\<exists>r ops out. process_record self client i db c w =
      (r, w\<lparr>colls := replay ops (colls w), oplog := oplog w @ ops, stdout := stdout w @ out\<rparr>) \<and>
      (ops = [] \<and> r \<noteq> Inr () \<or>
       (\<exists>sfx d. (sfx = ''_errors'' \<or> sfx = ''_deleted'' \<or> sfx = ''_records'') \<and> r = Inr () \<and>
          ops = [InsertOne (db, c @ sfx) d, done_update (mongo_db self) c ''_records_checkpoint'' i]))"
proof -
  obtain sfx d where o: "record_outcome client i = (sfx, d)"
    by (cases "record_outcome client i")
  show ?thesis
  proof (cases "has_id (docs_of w (db, c @ sfx)) i")
    case True
    from process_record_dup[OF o True] show ?thesis
      by (intro exI[where x="Inl DuplicateKeyError"] exI[where x="[]"]) (simp add: replay_def)
  next
    case False
    let ?ops = "[InsertOne (db, c @ sfx) d, done_update (mongo_db self) c ''_records_checkpoint'' i]"
    from process_record_fresh[OF o False, where self=self] show ?thesis
    proof (elim exE)
      fix out
      assume "process_record self client i db c w =
         (Inr (), w\<lparr>colls := replay ?ops (colls w), oplog := oplog w @ ?ops,
                     stdout := stdout w @ out\<rparr>)"
      with record_outcome_sfx[OF o] show ?thesis
        by (intro exI[where x="Inr ()"] exI[where x="?ops"] exI[where x=out]) auto
    qed
  qed
qed

lemma created_world_colls: "colls created_world = created_colls"
  by (simp add: created_world_def create_def io_defs store_defs demo_defs collect_def
       created_colls_def record_entry_def set_entry_def dict_get_simps)


subsection \<open>Documents and done entries are kept\<close>

lemma kept_refl: "kept ds ds"
  by (induction ds) auto

lemma kept_append: "kept ds (ds @ xs)"
  by (induction ds) auto

lemma kept_trans: "kept a b \<Longrightarrow> kept b c \<Longrightarrow> kept a c"
proof (induction a b arbitrary: c rule: kept.induct)
  case (1 new) then show ?case by simp
next
  case (2 d ds) then show ?case by simp
next
  case (3 d ds d' ds')
  then show ?case by (cases c) auto
qed

lemma set_status_done:
  "dict_get (set_fields [(''status'', VInt 1)] d) ''_id'' = dict_get d ''_id'' \<and>
   is_done (set_fields [(''status'', VInt 1)] d)"
  by (simp add: set_fields_def is_done_def dict_get_dict_set_same dict_get_dict_set_other)

lemma kept_update_first: "kept ds (update_first p (set_fields [(''status'', VInt 1)]) ds)"
  by (induction ds) (auto simp: set_status_done kept_refl)

lemma colls_kept_refl: "colls_kept m m"
  by (auto simp: colls_kept_def kept_refl split: option.splits)

lemma colls_kept_trans: "colls_kept a b \<Longrightarrow> colls_kept b c \<Longrightarrow> colls_kept a c"
  unfolding colls_kept_def
proof (intro allI)
  fix k
  assume ab: "\<forall>k. case a k of None \<Rightarrow> True | Some ds \<Rightarrow> (case b k of None \<Rightarrow> False | Some ds' \<Rightarrow> kept ds ds')"
     and bc: "\<forall>k. case b k of None \<Rightarrow> True | Some ds \<Rightarrow> (case c k of None \<Rightarrow> False | Some ds' \<Rightarrow> kept ds ds')"
  from ab[rule_format, of k] bc[rule_format, of k]
  show "case a k of None \<Rightarrow> True | Some ds \<Rightarrow> (case c k of None \<Rightarrow> False | Some ds' \<Rightarrow> kept ds ds')"
    by (auto split: option.splits intro: kept_trans)
qed

lemma colls_kept_apply_op: "harvest_op op \<Longrightarrow> colls_kept m (apply_op op m)"
  by (cases op) (auto simp: colls_kept_def kept_refl kept_append kept_update_first split: option.splits)

lemma colls_kept_replay: "list_all harvest_op ops \<Longrightarrow> colls_kept m (replay ops m)"
proof (induction ops arbitrary: m)
  case Nil
  then show ?case by (simp add: replay_def colls_kept_refl)
next
  case (Cons op ops)
  then have "colls_kept m (apply_op op m)" "colls_kept (apply_op op m) (replay ops (apply_op op m))"
    by (simp_all add: colls_kept_apply_op)
  then show ?case using colls_kept_trans by (simp add: replay_def)
qed

lemma done_kept_refl: "done_kept w w"
  by (simp add: done_kept_def colls_kept_refl)

lemma done_kept_trans: "done_kept a b \<Longrightarrow> done_kept b c \<Longrightarrow> done_kept a c"
  unfolding done_kept_def by (rule colls_kept_trans)

lemma done_kept_same: "colls w' = colls w \<Longrightarrow> done_kept w w'"
  by (simp add: done_kept_def colls_kept_refl)

lemma done_kept_bnd:
  assumes "\<And>w. done_kept w (snd (m w))" and "\<And>a w. done_kept w (snd (f a w))"
  shows "done_kept w (snd (bnd m f w))"
proof (cases "m w")
  case (Pair r w')
  with assms(1)[of w] have 1: "done_kept w w'" by simp
  show ?thesis
  proof (cases r)
    case (Inl e) with Pair 1 show ?thesis by (simp add: bnd_def)
  next
    case (Inr a)
    with Pair have "bnd m f w = f a w'" by (simp add: bnd_def)
    with 1 assms(2)[of w' a] show ?thesis by (auto intro: done_kept_trans)
  qed
qed

lemma done_kept_process_record: "done_kept w (snd (process_record self client i db c w))"
proof -
  from process_record_cases[of self client i db c w] obtain r ops out where
    run: "process_record self client i db c w =
      (r, w\<lparr>colls := replay ops (colls w), oplog := oplog w @ ops, stdout := stdout w @ out\<rparr>)"
    and shape: "ops = [] \<and> r \<noteq> Inr () \<or>
       (\<exists>sfx d. (sfx = ''_errors'' \<or> sfx = ''_deleted'' \<or> sfx = ''_records'') \<and> r = Inr () \<and>
          ops = [InsertOne (db, c @ sfx) d, done_update (mongo_db self) c ''_records_checkpoint'' i])"
    by (elim exE conjE)
  from shape have "list_all harvest_op ops" by (auto simp: done_update_def)
  from colls_kept_replay[OF this] show ?thesis by (simp add: run done_kept_def)
qed

lemma done_kept_process_set: "done_kept w (snd (process_set self client s db c w))"
proof -
  from process_set_cases[of self client s db c w] obtain r ops out where
    run: "process_set self client s db c w =
      (r, w\<lparr>colls := replay ops (colls w), oplog := oplog w @ ops, stdout := stdout w @ out\<rparr>)"
    and shape: "ops = [] \<and> r \<noteq> Inr () \<or>
       (\<exists>d. ops = [InsertOne (db, c @ ''_errors'') d] \<and> r \<noteq> Inr ()) \<or>
       (\<exists>sfx d i. (sfx = ''_errors'' \<or> sfx = ''_sets'') \<and> r = Inr () \<and>
          dict_get s ''_id'' = Some i \<and>
          ops = [InsertOne (db, c @ sfx) d, done_update (mongo_db self) c ''_sets_checkpoint'' i])"
    by (elim exE conjE)
  from shape have "list_all harvest_op ops" by (auto simp: done_update_def)
  from colls_kept_replay[OF this] show ?thesis by (simp add: run done_kept_def)
qed

lemma done_kept_update_one:
  "done_kept w (snd (update_one k flt [(''status'', VInt 1)] w))"
  using colls_kept_apply_op[of "UpdateOne k flt [(''status'', VInt 1)]" "colls w"]
  by (simp add: update_one_apply done_kept_def del: apply_op.simps)

lemma done_kept_parallel_for:
  assumes "\<And>x w. done_kept w (snd (f x w))"
  shows "done_kept w (snd (parallel_for f xs w))"
proof (induction xs arbitrary: w)
  case Nil
  then show ?case by (simp add: ret_def done_kept_refl)
next
  case (Cons x xs)
  show ?case
    unfolding parallel_for.simps
    by (rule done_kept_bnd) (rule assms, rule Cons.IH)
qed

lemma done_kept_lift: "done_kept w (snd (lift r w))"
  by (cases r) (simp_all add: lift_def ret_def raise_def done_kept_refl)

lemma done_kept_print: "done_kept w (snd (py_print l w))"
  by (simp add: py_print_def done_kept_same)

lemma done_kept_run_endpoint: "done_kept w (snd (run_endpoint self rem ep w))"
  unfolding run_endpoint_def Let_def
proof (rule done_kept_bnd[OF done_kept_print], rule done_kept_bnd)
  fix w show "done_kept w (snd (exists (mongo_db self) (snd ep) w))"
    by (simp add: exists_def done_kept_refl)
next
  fix found w
  show "done_kept w (snd ((if found then
        bnd (get_records_regs (mongo_db self) (snd ep)) (\<lambda>record_ids.
         bnd (parallel_for (\<lambda>rec_doc. bnd (lift (py_getitem rec_doc ''_id'')) (\<lambda>i.
                process_record self (rem (fst ep) False) i (mongo_db self) (snd ep))) record_ids) (\<lambda>_.
         bnd (get_sets_regs (mongo_db self) (snd ep)) (\<lambda>set_ids.
         parallel_for (\<lambda>set_id. process_set self (rem (fst ep) False) set_id (mongo_db self) (snd ep))
           set_ids)))
      else
        bnd (py_print [S ''*** Error: checkpoint for '', S (fst ep),
                       S '' not found, create it first with ...'']) (\<lambda>_.
        py_print [S ''*** Omitting '', S (fst ep), S '' '', S (snd ep)])) w))"
  proof (cases found)
    case False
    then show ?thesis by (simp add: done_kept_bnd done_kept_print)
  next
    case True
    have g1: "\<And>w. done_kept w (snd (get_records_regs (mongo_db self) (snd ep) w))"
      by (simp add: get_records_regs_def find_excluding_def done_kept_refl)
    have g2: "\<And>w. done_kept w (snd (get_sets_regs (mongo_db self) (snd ep) w))"
      by (simp add: get_sets_regs_def find_excluding_def done_kept_refl)
    have p1: "\<And>xs w. done_kept w (snd (parallel_for (\<lambda>rec_doc. bnd (lift (py_getitem rec_doc ''_id'')) (\<lambda>i.
                process_record self (rem (fst ep) False) i (mongo_db self) (snd ep))) xs w))"
      by (rule done_kept_parallel_for, rule done_kept_bnd, rule done_kept_lift, rule done_kept_process_record)
    have p2: "\<And>xs w. done_kept w (snd (parallel_for (\<lambda>set_id. process_set self (rem (fst ep) False) set_id (mongo_db self) (snd ep)) xs w))"
      by (rule done_kept_parallel_for, rule done_kept_process_set)
    from True show ?thesis
      by (simp add: done_kept_bnd g1 g2 p1 p2)
  qed
qed

lemma done_kept_run: "done_kept w (snd (run self rem w))"
proof -
  have "done_kept w (snd (run_endpoints self rem eps w))" for eps
  proof (induction eps arbitrary: w)
    case Nil
    then show ?case by (simp add: ret_def done_kept_refl)
  next
    case (Cons ep eps)
    show ?case unfolding run_endpoints.simps
      by (rule done_kept_bnd) (rule done_kept_run_endpoint, rule Cons.IH)
  qed
  then show ?thesis by (simp add: run_def)
qed

subsection \<open>The ledger before the last write\<close>




subsection \<open>The scenario, evaluated\<close>

lemma harvested_world_colls:
  "map (\<lambda>sfx. colls harvested_world (''dspace'', ''uni'' @ sfx))
     [''_records'', ''_deleted'', ''_errors'', ''_sets'', ''_records_checkpoint'', ''_sets_checkpoint''] =
   [Some [[(''title'', VList [VStr ''T'']), (''_id'', VStr ''A'')]],
    Some [[(''_id'', VStr ''B'')]],
    Some [error_record (VStr ''C'') ''record'' no_such_id],
    Some [[(''_id'', VStr ''s1''), (''name'', VStr ''Set One''), (''records'', VList [VStr ''A'', VStr ''B''])]],
    Some [record_entry (VStr ''A'', 1), record_entry (VStr ''B'', 1), record_entry (VStr ''C'', 1)],
    Some [set_entry (VStr ''s1'', VStr ''Set One'', 1)]]"
  by (simp add: harvested_world_def run_defs ckp_defs io_defs store_defs demo_defs
        created_world_colls created_colls_def record_entry_def set_entry_def dict_get_simps
        error_record_def)

subsection \<open>Ledger entries under the queries of the checkpoint\<close>

lemma matches_pending_record: "matches [(''status'', VInt 0)] (record_entry e) = (snd e = 0)"
  by (simp add: matches_def record_entry_def dict_get_simps)

lemma matches_pending_set: "matches [(''status'', VInt 0)] (set_entry e) = (snd (snd e) = 0)"
  by (simp add: matches_def set_entry_def dict_get_simps)

lemma find_pending_records:
  "map (dict_del ''status'')
     (filter (matches [(''status'', VInt 0)]) (map record_entry es)) =
   map (\<lambda>e. [(''_id'', fst e)]) (filter (\<lambda>e. snd e = 0) es)"
  by (induction es) (simp_all add: matches_pending_record, simp add: record_entry_def dict_del_def)

lemma find_pending_sets:
  "map (dict_del ''status'')
     (filter (matches [(''status'', VInt 0)]) (map set_entry ss)) =
   map (\<lambda>e. [(''_id'', fst e), (''name'', fst (snd e))]) (filter (\<lambda>e. snd (snd e) = 0) ss)"
  by (induction ss) (simp_all add: matches_pending_set, simp add: set_entry_def dict_del_def)

lemma matches_id_record: "matches [(''_id'', i)] (record_entry e) = (fst e = i)"
  by (simp add: matches_def record_entry_def dict_get_simps)

lemma matches_id_set: "matches [(''_id'', i)] (set_entry e) = (fst e = i)"
  by (simp add: matches_def set_entry_def dict_get_simps)

lemma set_done_record: "set_fields [(''status'', VInt 1)] (record_entry e) = record_entry (fst e, 1)"
  by (simp add: set_fields_def record_entry_def)

lemma set_done_set: "set_fields [(''status'', VInt 1)] (set_entry e) = set_entry (fst e, fst (snd e), 1)"
  by (simp add: set_fields_def set_entry_def)

lemma update_first_records:
  "distinct (map fst es) \<Longrightarrow>
   update_first (matches [(''_id'', i)]) (set_fields [(''status'', VInt 1)]) (map record_entry es) =
   map record_entry (map (\<lambda>e. if fst e = i then (fst e, 1) else e) es)"
proof (induction es)
  case Nil
  then show ?case by simp
next
  case (Cons e es)
  show ?case
  proof (cases "fst e = i")
    case True
    from Cons.prems True have "i \<notin> fst ` set es" by simp
    then have "\<forall>x\<in>set es. fst x \<noteq> i" by blast
    then have "map (\<lambda>e. if fst e = i then (fst e, 1) else e) es = es"
      by (intro map_idI) auto
    with True show ?thesis by (simp add: matches_id_record set_done_record)
  next
    case False
    with Cons show ?thesis by (simp add: matches_id_record)
  qed
qed

lemma update_first_sets:
  "distinct (map fst ss) \<Longrightarrow>
   update_first (matches [(''_id'', i)]) (set_fields [(''status'', VInt 1)]) (map set_entry ss) =
   map set_entry (map (\<lambda>e. if fst e = i then (fst e, fst (snd e), 1) else e) ss)"
proof (induction ss)
  case Nil
  then show ?case by simp
next
  case (Cons e ss)
  show ?case
  proof (cases "fst e = i")
    case True
    from Cons.prems True have "i \<notin> fst ` set ss" by simp
    then have "\<forall>x\<in>set ss. fst x \<noteq> i" by blast
    then have "map (\<lambda>e. if fst e = i then (fst e, fst (snd e), 1) else e) ss = ss"
      by (intro map_idI) auto
    with True show ?thesis by (simp add: matches_id_set set_done_set)
  next
    case False
    with Cons show ?thesis by (simp add: matches_id_set)
  qed
qed


subsection \<open>Bulk inserts and the paths through \<open>create\<close>\<close>

lemma assign_ids_all:
  "\<forall>d\<in>set ds. dict_get d ''_id'' \<noteq> None \<Longrightarrow> assign_ids ds w = (Inr ds, w)"
  by (induction ds) (auto simp: bnd_def ret_def with_id_def split: option.splits)

lemma id_taken_snoc:
  "id_taken (seen @ [d]) d' =
     (id_taken seen d' \<or> (dict_get d' ''_id'' \<noteq> None \<and> dict_get d' ''_id'' = dict_get d ''_id''))"
  by (auto simp: id_taken_def has_id_def split: option.splits)

lemma accepted_fresh:
  "distinct (map (\<lambda>d. dict_get d ''_id'') ds) \<Longrightarrow> \<forall>d\<in>set ds. \<not> id_taken seen d \<Longrightarrow>
   accepted seen ds = ds"
proof (induction ds arbitrary: seen)
  case Nil
  then show ?case by simp
next
  case (Cons d ds)
  have "\<forall>x\<in>set ds. \<not> id_taken (seen @ [d]) x"
  proof
    fix x assume x: "x \<in> set ds"
    from Cons.prems(1) have "dict_get d ''_id'' \<notin> (\<lambda>d. dict_get d ''_id'') ` set ds" by simp
    with x have ne: "dict_get x ''_id'' \<noteq> dict_get d ''_id''" by (metis imageI)
    from Cons.prems(2) x have "\<not> id_taken seen x" by simp
    with ne show "\<not> id_taken (seen @ [d]) x" by (simp add: id_taken_snoc)
  qed
  with Cons show ?case by simp
qed

lemma accepted_all_distinct:
  "accepted seen ds = ds \<Longrightarrow> \<forall>d\<in>set ds. dict_get d ''_id'' \<noteq> None \<Longrightarrow>
   distinct (map (\<lambda>d. dict_get d ''_id'') ds)"
proof (induction ds arbitrary: seen)
  case Nil
  then show ?case by simp
next
  case (Cons d ds)
  from Cons.prems(1) have nt: "\<not> id_taken seen d" and rest: "accepted (seen @ [d]) ds = ds"
    by (auto split: if_splits)
  have "\<forall>x\<in>set ds. \<not> id_taken (seen @ [d]) x"
  proof
    fix x assume x: "x \<in> set ds"
    then obtain pre post where ds: "ds = pre @ x # post" by (auto simp: in_set_conv_decomp)
    show "\<not> id_taken (seen @ [d]) x"
    proof
      assume t: "id_taken (seen @ [d]) x"
      have "\<And>s. id_taken s x \<Longrightarrow> accepted s (pre @ x # post) \<noteq> pre @ x # post"
      proof (induction pre)
        case Nil then show ?case by simp
      next
        case (Cons p pre)
        have "id_taken (s @ [p]) x" using Cons.prems by (auto simp: id_taken_snoc)
        from Cons.IH[OF this] show ?case by (auto split: if_splits)
      qed
      from this[OF t] rest ds show False by simp
    qed
  qed
  then have "\<forall>x\<in>set ds. dict_get x ''_id'' \<noteq> dict_get d ''_id''"
    using Cons.prems(2) by (auto simp: id_taken_snoc)
  moreover from Cons.IH[OF rest] Cons.prems(2) have "distinct (map (\<lambda>d. dict_get d ''_id'') ds)" by simp
  ultimately show ?case by auto
qed

lemma length_accepted: "length (accepted seen ds) \<le> length ds"
  by (induction ds arbitrary: seen) auto

lemma accepted_full: "length (accepted seen ds) = length ds \<Longrightarrow> accepted seen ds = ds"
proof (induction ds arbitrary: seen)
  case Nil then show ?case by simp
next
  case (Cons d ds)
  then show ?case by (auto split: if_splits)
qed

lemma insert_many_empty: "insert_many key [] w = (Inl TypeError, w)"
  by (simp add: insert_many_def raise_def)

lemma insert_many_fresh:
  assumes "ds \<noteq> []" and "\<forall>d\<in>set ds. dict_get d ''_id'' \<noteq> None"
    and "distinct (map (\<lambda>d. dict_get d ''_id'') ds)" and "colls w key = None"
  shows "insert_many key ds w =
           (Inr (), w\<lparr>colls := (colls w)(key \<mapsto> ds), oplog := oplog w @ [InsertMany key ds]\<rparr>)"
proof -
  have "accepted (docs_of w key) ds = ds"
    using assms(3,4) by (intro accepted_fresh) (auto simp: docs_of_def id_taken_def has_id_def split: option.splits)
  with assms(1) show ?thesis
    by (simp add: insert_many_def bnd_def assign_ids_all[OF assms(2)] Let_def docs_of_def assms(4))
qed

lemma insert_many_dup_eval:
  assumes "ds \<noteq> []" and "\<forall>d\<in>set ds. dict_get d ''_id'' \<noteq> None"
    and "\<not> distinct (map (\<lambda>d. dict_get d ''_id'') ds)"
  shows "insert_many key ds w =
           (Inl BulkWriteError,
            if accepted (docs_of w key) ds = [] then w
            else w\<lparr>colls := (colls w)(key \<mapsto> docs_of w key @ accepted (docs_of w key) ds),
                   oplog := oplog w @ [InsertMany key (accepted (docs_of w key) ds)]\<rparr>)"
proof -
  have "accepted (docs_of w key) ds \<noteq> ds"
    using accepted_all_distinct[OF _ assms(2)] assms(3) by blast
  with accepted_full[of "docs_of w key" ds] length_accepted[of "docs_of w key" ds]
  have "length (accepted (docs_of w key) ds) < length ds"
    by (cases "length (accepted (docs_of w key) ds) = length ds") auto
  with assms(1) show ?thesis
    by (simp add: insert_many_def bnd_def assign_ids_all[OF assms(2)] Let_def)
qed

lemma record_ledger_ids:
  "map (\<lambda>d. dict_get d ''_id'') (record_ledger hs) = map (\<lambda>h. Some (VStr (hdr_identifier h))) hs"
  by (simp add: record_ledger_def record_entry_def dict_get_simps)

lemma set_ledger_ids:
  "map (\<lambda>d. dict_get d ''_id'') (set_ledger ss) = map (\<lambda>s. Some (VStr (fst s))) ss"
  by (simp add: set_ledger_def set_entry_def dict_get_simps)

lemma record_ledger_distinct:
  "distinct (map (\<lambda>d. dict_get d ''_id'') (record_ledger hs)) = distinct (map hdr_identifier hs)"
  unfolding record_ledger_ids
  by (simp add: distinct_map inj_on_def)

lemma set_ledger_distinct:
  "distinct (map (\<lambda>d. dict_get d ''_id'') (set_ledger ss)) = distinct (map fst ss)"
  unfolding set_ledger_ids
  by (simp add: distinct_map inj_on_def)

lemma record_ledger_has_ids: "\<forall>d\<in>set (record_ledger hs). dict_get d ''_id'' \<noteq> None"
  by (simp add: record_ledger_def record_entry_def dict_get_simps)

lemma set_ledger_has_ids: "\<forall>d\<in>set (set_ledger ss). dict_get d ''_id'' \<noteq> None"
  by (simp add: set_ledger_def set_entry_def dict_get_simps)

lemma record_ledger_empty: "(record_ledger hs = []) = (hs = [])"
  by (simp add: record_ledger_def)

lemma set_ledger_empty: "(set_ledger ss = []) = (ss = [])"
  by (simp add: set_ledger_def)

lemma length_record_ledger: "length (record_ledger hs) = length hs"
  by (simp add: record_ledger_def)

lemma length_set_ledger: "length (set_ledger ss) = length ss"
  by (simp add: set_ledger_def)

lemmas ledger_simps = record_ledger_empty set_ledger_empty length_record_ledger length_set_ledger
  record_ledger_has_ids set_ledger_has_ids record_ledger_distinct set_ledger_distinct

lemma collect_records:
  "collect (\<lambda>i. [(''_id'', VStr (hdr_identifier i)), (''status'', VInt 0)]) (PyIter hs None) =
     Inr (record_ledger hs)"
  by (simp add: collect_def record_ledger_def record_entry_def)

lemma collect_sets:
  "collect (\<lambda>s. [(''_id'', VStr (fst s)), (''name'', VStr (snd s)), (''status'', VInt 0)]) (PyIter ss None) =
     Inr (set_ledger ss)"
  by (simp add: collect_def set_ledger_def set_entry_def)

lemma collect_raises: "collect g (PyIter xs (Some e)) = Inl e"
  by (simp add: collect_def)


lemmas create_eval = create_def bnd_def ret_def raise_def lift_def py_print_def Let_def
  insert_one_eval mongo_drop_def dict_get_simps docs_of_def has_id_def
  after_writes_def identity_writes_def identity_info_def record_writes_def set_writes_def replay_def
  collect_records collect_sets collect_raises insert_many_empty

lemma create_identify_fails:
  "identify (rem url f) = Inl e \<Longrightarrow> create rem url db c f w = (Inl e, w)"
  by (simp add: create_eval)

lemma create_listing_call_fails:
  assumes "identify (rem url f) = Inr idn" and "listIdentifiers (rem url f) None = Inl e"
  shows "create rem url db c f w =
           (Inl e, after_writes (identity_writes db c (next_oid w) idn) 1 [] w)"
  using assms by (simp add: create_eval)

lemma create_listing_iteration_fails:
  assumes "identify (rem url f) = Inr idn"
    and "listIdentifiers (rem url f) None = Inr (PyIter hs (Some e))"
  shows "create rem url db c f w =
           (Inl e, after_writes (identity_writes db c (next_oid w) idn) 1
              [[S ''=== Getting Records ids from '', S url, S ''  for '', S c]] w)"
  using assms by (simp add: create_eval)

lemma create_listing_empty:
  assumes "identify (rem url f) = Inr idn"
    and "listIdentifiers (rem url f) None = Inr (PyIter [] None)"
  shows "create rem url db c f w =
           (Inl TypeError,
            after_writes (identity_writes db c (next_oid w) idn @ [Drop (db, c @ ''_records_checkpoint'')]) 1
              [[S ''=== Getting Records ids from '', S url, S ''  for '', S c]] w)"
  using assms by (simp add: create_eval record_ledger_def)

lemma create_sets_call_fails:
  assumes "identify (rem url f) = Inr idn"
    and "listIdentifiers (rem url f) None = Inr (PyIter hs None)"
    and "hs \<noteq> []" and "distinct (map hdr_identifier hs)"
    and "listSets (rem url f) = Inl e"
  shows "create rem url db c f w =
           (Inl e, after_writes (identity_writes db c (next_oid w) idn @ record_writes db c hs) 1
              (records_out url c (length hs)) w)"
  using assms
  by (simp add: create_eval insert_many_fresh ledger_simps records_out_def)


lemma create_listing_duplicates:
  assumes "identify (rem url f) = Inr idn"
    and "listIdentifiers (rem url f) None = Inr (PyIter hs None)"
    and "hs \<noteq> []" and "\<not> distinct (map hdr_identifier hs)"
  shows "fst (create rem url db c f w) = Inl BulkWriteError"
  using assms
  by (simp add: create_def bnd_def ret_def raise_def lift_def py_print_def Let_def
        insert_one_eval mongo_drop_def dict_get_simps collect_records docs_of_def has_id_def
        insert_many_dup_eval ledger_simps)

lemma create_sets_iteration_fails:
  assumes "identify (rem url f) = Inr idn"
    and "listIdentifiers (rem url f) None = Inr (PyIter hs None)"
    and "hs \<noteq> []" and "distinct (map hdr_identifier hs)"
    and "listSets (rem url f) = Inr (PyIter ss (Some e))"
  shows "create rem url db c f w =
           (Inl e, after_writes (identity_writes db c (next_oid w) idn @ record_writes db c hs) 1
              (records_out url c (length hs) @
               [[S ''=== Getting Sets ids from '', S url, S ''  for '', S c]]) w)"
  using assms
  by (simp add: create_eval insert_many_fresh ledger_simps records_out_def)

lemma create_sets_empty:
  assumes "identify (rem url f) = Inr idn"
    and "listIdentifiers (rem url f) None = Inr (PyIter hs None)"
    and "hs \<noteq> []" and "distinct (map hdr_identifier hs)"
    and "listSets (rem url f) = Inr (PyIter [] None)"
  shows "create rem url db c f w =
           (Inl TypeError,
            after_writes (identity_writes db c (next_oid w) idn @ record_writes db c hs @
                          [Drop (db, c @ ''_sets_checkpoint'')]) 1
              (records_out url c (length hs) @
               [[S ''=== Getting Sets ids from '', S url, S ''  for '', S c]]) w)"
  using assms
  by (simp add: create_eval insert_many_fresh ledger_simps records_out_def set_ledger_def)

lemma create_sets_duplicates:
  assumes "identify (rem url f) = Inr idn"
    and "listIdentifiers (rem url f) None = Inr (PyIter hs None)"
    and "hs \<noteq> []" and "distinct (map hdr_identifier hs)"
    and "listSets (rem url f) = Inr (PyIter ss None)"
    and "ss \<noteq> []" and "\<not> distinct (map fst ss)"
  shows "fst (create rem url db c f w) = Inl BulkWriteError"
  using assms
  by (simp add: create_def bnd_def ret_def raise_def lift_def py_print_def Let_def
        insert_one_eval mongo_drop_def dict_get_simps collect_records collect_sets
        docs_of_def has_id_def insert_many_fresh insert_many_dup_eval ledger_simps)

lemma create_succeeds:
  assumes "identify (rem url f) = Inr idn"
    and "listIdentifiers (rem url f) None = Inr (PyIter hs None)"
    and "hs \<noteq> []" and "distinct (map hdr_identifier hs)"
    and "listSets (rem url f) = Inr (PyIter ss None)"
    and "ss \<noteq> []" and "distinct (map fst ss)"
  shows "create rem url db c f w =
           (Inr (),
            after_writes (identity_writes db c (next_oid w) idn @ record_writes db c hs @
                          set_writes db c ss) 1
              (records_out url c (length hs) @
               [[S ''=== Getting Sets ids from '', S url, S ''  for '', S c],
                [S ''=== Sets CheckPoint total sets found = '', N (length ss)]]) w)"
  using assms
  by (simp add: create_eval insert_many_fresh ledger_simps records_out_def)

lemma colls_after_writes: "colls (after_writes ops n out w) = replay ops (colls w)"
  and oplog_after_writes: "oplog (after_writes ops n out w) = oplog w @ ops"
  by (simp_all add: after_writes_def)

subsection \<open>The outcome of a set item\<close>

lemma process_set_no_outcome:
  assumes "set_outcome client s = None"
  shows "\<exists>e. process_set self client s db c w = (Inl e, w)"
proof (cases "dict_get s ''_id''")
  case None
  with assms show ?thesis by (simp add: set_outcome_def)
next
  case (Some i)
  show ?thesis
  proof (cases "listIdentifiers client (Some i)")
    case (Inl e)
    with assms Some show ?thesis by (simp add: set_outcome_def)
  next
    case (Inr it)
    show ?thesis
    proof (cases "ends_raising it")
      case (Some e)
      have "process_set self client s db c w = (Inl e, w)"
        using \<open>dict_get s ''_id'' = Some i\<close> Inr Some
        by (simp add: process_set_def pure_bnd_def py_getitem_def bnd_def lift_def raise_def collect_def)
      then show ?thesis by (intro exI[where x=e])
    next
      case None
      with assms \<open>dict_get s ''_id'' = Some i\<close> Inr have n: "dict_get s ''name'' = None"
        by (simp add: set_outcome_def split: option.splits)
      have "process_set self client s db c w = (Inl (KeyError ''name''), w)"
        using \<open>dict_get s ''_id'' = Some i\<close> Inr None n
        by (simp add: process_set_def pure_bnd_def py_getitem_def bnd_def lift_def raise_def ret_def collect_def)
      then show ?thesis by (intro exI[where x="KeyError ''name''"])
    qed
  qed
qed

lemma set_outcome_cases:
  assumes "set_outcome client s = Some (sfx, d)"
  shows "(\<exists>e. sfx = ''_errors'' \<and> d = error_record (VDoc s) ''set'' e \<and>
              pure_bnd (py_getitem s ''_id'') (\<lambda>i. listIdentifiers client (Some i)) = Inl e) \<or>
         (\<exists>i n it. sfx = ''_sets'' \<and> dict_get s ''_id'' = Some i \<and> dict_get s ''name'' = Some n \<and>
              listIdentifiers client (Some i) = Inr it \<and> ends_raising it = None \<and>
              d = [(''_id'', i), (''name'', n),
                   (''records'', VList (map (\<lambda>h. VStr (hdr_identifier h)) (yields it)))])"
proof (cases "dict_get s ''_id''")
  case None
  with assms show ?thesis by (auto simp add: set_outcome_def pure_bnd_def py_getitem_def)
next
  case (Some i)
  show ?thesis
  proof (cases "listIdentifiers client (Some i)")
    case (Inl e)
    with assms Some show ?thesis by (auto simp add: set_outcome_def pure_bnd_def py_getitem_def)
  next
    case (Inr it)
    with assms Some show ?thesis
      by (auto simp add: set_outcome_def split: option.splits)
  qed
qed

lemma process_set_dup:
  assumes "set_outcome client s = Some (sfx, d)" and "id_taken (docs_of w (db, c @ sfx)) d"
  shows "process_set self client s db c w = (Inl DuplicateKeyError, w)"
proof -
  from set_outcome_cases[OF assms(1)] show ?thesis
  proof (elim disjE exE conjE)
    fix e
    assume "sfx = ''_errors''" "d = error_record (VDoc s) ''set'' e"
      "pure_bnd (py_getitem s ''_id'') (\<lambda>i. listIdentifiers client (Some i)) = Inl e"
    with assms(2) show ?thesis
      by (simp add: process_set_def bnd_def insert_one_eval dict_get_simps error_record_def id_taken_def)
  next
    fix i n it
    assume "sfx = ''_sets''" "dict_get s ''_id'' = Some i" "dict_get s ''name'' = Some n"
      "listIdentifiers client (Some i) = Inr it" "ends_raising it = None"
      "d = [(''_id'', i), (''name'', n),
            (''records'', VList (map (\<lambda>h. VStr (hdr_identifier h)) (yields it)))]"
    with assms(2) show ?thesis
      by (simp add: process_set_def pure_bnd_def py_getitem_def bnd_def lift_def ret_def collect_def
            insert_one_eval dict_get_simps id_taken_def)
  qed
qed

lemma process_set_fresh:
  assumes "set_outcome client s = Some (sfx, d)" and "\<not> id_taken (docs_of w (db, c @ sfx)) d"
    and "dict_get s ''_id'' = Some j"
  shows "\<exists>out. process_set self client s db c w =
       (Inr (), w\<lparr>colls := replay [InsertOne (db, c @ sfx) d,
                                   done_update (mongo_db self) c ''_sets_checkpoint'' j] (colls w),
                   oplog := oplog w @ [InsertOne (db, c @ sfx) d,
                         done_update (mongo_db self) c ''_sets_checkpoint'' j],
                   stdout := stdout w @ out\<rparr>)"
proof -
  from set_outcome_cases[OF assms(1)] show ?thesis
  proof (elim disjE exE conjE)
    fix e
    assume a: "sfx = ''_errors''" "d = error_record (VDoc s) ''set'' e"
      "pure_bnd (py_getitem s ''_id'') (\<lambda>i. listIdentifiers client (Some i)) = Inl e"
    have "process_set self client s db c w =
       (Inr (), w\<lparr>colls := replay [InsertOne (db, c @ sfx) d,
                                   done_update (mongo_db self) c ''_sets_checkpoint'' j] (colls w),
                   oplog := oplog w @ [InsertOne (db, c @ sfx) d,
                         done_update (mongo_db self) c ''_sets_checkpoint'' j],
                   stdout := stdout w @ [[S ''=== ERROR ===''], [S (str_exn e)], [V (VDoc s)]]\<rparr>)"
      using a assms(2,3)
      by (simp add: process_set_def py_getitem_def bnd_def lift_def ret_def
            insert_one_eval dict_get_simps replay_def error_record_def id_taken_def
            update_set_def update_one_apply done_update_def py_print_def
            del: apply_op.simps)
    then show ?thesis
      by (intro exI[where x="[[S ''=== ERROR ===''], [S (str_exn e)], [V (VDoc s)]]"])
  next
    fix i n it
    assume a: "sfx = ''_sets''" "dict_get s ''_id'' = Some i" "dict_get s ''name'' = Some n"
      "listIdentifiers client (Some i) = Inr it" "ends_raising it = None"
      "d = [(''_id'', i), (''name'', n),
            (''records'', VList (map (\<lambda>h. VStr (hdr_identifier h)) (yields it)))]"
    have "process_set self client s db c w =
       (Inr (), w\<lparr>colls := replay [InsertOne (db, c @ sfx) d,
                                   done_update (mongo_db self) c ''_sets_checkpoint'' j] (colls w),
                   oplog := oplog w @ [InsertOne (db, c @ sfx) d,
                         done_update (mongo_db self) c ''_sets_checkpoint'' j],
                   stdout := stdout w @ []\<rparr>)"
      using a assms(2,3)
      by (simp add: process_set_def pure_bnd_def py_getitem_def bnd_def lift_def ret_def collect_def
            insert_one_eval dict_get_simps replay_def id_taken_def
            update_set_def update_one_apply done_update_def
            del: apply_op.simps)
    then show ?thesis by (intro exI[where x="[]"])
  qed
qed

subsection \<open>The two phases of a pass over an endpoint\<close>

lemma parallel_for_ids:
  "parallel_for (\<lambda>rec_doc. bnd (lift (py_getitem rec_doc ''_id'')) P)
     (map (\<lambda>e. [(''_id'', fst e)]) xs) =
   parallel_for P (map fst xs)"
proof (induction xs)
  case Nil
  then show ?case by simp
next
  case (Cons x xs)
  have "bnd (lift (py_getitem [(''_id'', fst x)] ''_id'')) P = P (fst x)"
    by (rule ext) (simp add: bnd_def lift_def ret_def py_getitem_def dict_get_simps)
  with Cons show ?case by simp
qed

lemma bnd_cong_after:
  assumes "\<And>a w'. m w = (Inr a, w') \<Longrightarrow> f a w' = g a w'"
  shows "bnd m f w = bnd m g w"
proof (cases "m w")
  case (Pair r w')
  show ?thesis
  proof (cases r)
    case (Inl e) with Pair show ?thesis by (simp add: bnd_def)
  next
    case (Inr a) with Pair assms[of a w'] show ?thesis by (simp add: bnd_def)
  qed
qed

lemma process_record_keeps_set_ledger:
  "colls (snd (process_record self client i db c w)) (db', c @ ''_sets_checkpoint'') =
   colls w (db', c @ ''_sets_checkpoint'')"
proof -
  from process_record_cases[of self client i db c w] obtain r ops out where
    run: "process_record self client i db c w =
      (r, w\<lparr>colls := replay ops (colls w), oplog := oplog w @ ops, stdout := stdout w @ out\<rparr>)"
    and shape: "ops = [] \<and> r \<noteq> Inr () \<or>
       (\<exists>sfx d. (sfx = ''_errors'' \<or> sfx = ''_deleted'' \<or> sfx = ''_records'') \<and> r = Inr () \<and>
          ops = [InsertOne (db, c @ sfx) d, done_update (mongo_db self) c ''_records_checkpoint'' i])"
    by (elim exE conjE)
  from shape have "replay ops (colls w) (db', c @ ''_sets_checkpoint'') =
      colls w (db', c @ ''_sets_checkpoint'')"
    by (auto simp add: replay_def done_update_def split: option.splits)
  then show ?thesis by (simp add: run)
qed

lemma record_phase_keeps_set_ledger:
  "colls (snd (parallel_for (\<lambda>i. process_record self client i db c) xs w))
     (db', c @ ''_sets_checkpoint'') = colls w (db', c @ ''_sets_checkpoint'')"
proof (induction xs arbitrary: w)
  case Nil
  then show ?case by (simp add: ret_def)
next
  case (Cons x xs)
  show ?case
  proof (cases "process_record self client x db c w")
    case (Pair r w')
    from process_record_keeps_set_ledger[of self client x db c w db'] Pair
    have k: "colls w' (db', c @ ''_sets_checkpoint'') = colls w (db', c @ ''_sets_checkpoint'')"
      by simp
    show ?thesis
    proof (cases r)
      case (Inl e) with Pair k show ?thesis by (simp add: bnd_def)
    next
      case (Inr a)
      with Pair have "parallel_for (\<lambda>i. process_record self client i db c) (x # xs) w =
          parallel_for (\<lambda>i. process_record self client i db c) xs w'"
        by (simp add: bnd_def)
      with Cons.IH[of w'] k show ?thesis by simp
    qed
  qed
qed

lemma bnd_py_print: "bnd (py_print l) f w = f () (w\<lparr>stdout := stdout w @ [l]\<rparr>)"
  by (simp add: bnd_def py_print_def)

lemma bnd_exists:
  "bnd (exists db c) f w =
     f (colls w (db, c @ ''_records_checkpoint'') \<noteq> None \<and>
        colls w (db, c @ ''_sets_checkpoint'') \<noteq> None) w"
  by (simp add: bnd_def exists_def collection_listed_def Let_def)

lemma bnd_get_records_regs:
  "bnd (get_records_regs db c) f w =
     f (map (dict_del ''status'')
          (filter (matches [(''status'', VInt 0)]) (docs_of w (db, c @ ''_records_checkpoint'')))) w"
  by (simp add: bnd_def get_records_regs_def find_excluding_def)

lemma run_endpoint_pending:
  assumes rec: "colls w (mongo_db self, c @ ''_records_checkpoint'') = Some (map record_entry es)"
      and sets: "colls w (mongo_db self, c @ ''_sets_checkpoint'') = Some (map set_entry ss)"
  shows "run_endpoint self rem (url, c) w =
      bnd (parallel_for (\<lambda>j. process_record self (rem url False) j (mongo_db self) c)
             (map fst (filter (\<lambda>e. snd e = 0) es)))
        (\<lambda>_. parallel_for (\<lambda>x. process_set self (rem url False) x (mongo_db self) c)
             (map (\<lambda>e. [(''_id'', fst e), (''name'', fst (snd e))])
                (filter (\<lambda>e. snd (snd e) = 0) ss)))
        (w\<lparr>stdout := stdout w @ [[S ''=== Processing '', S c, S '' from '', S url, S '' '']]\<rparr>)"
proof -
  let ?w0 = "w\<lparr>stdout := stdout w @ [[S ''=== Processing '', S c, S '' from '', S url, S '' '']]\<rparr>"
  let ?P = "\<lambda>j. process_record self (rem url False) j (mongo_db self) c"
  let ?Q = "\<lambda>x. process_set self (rem url False) x (mongo_db self) c"
  let ?ids = "map fst (filter (\<lambda>e. snd e = 0) es)"
  let ?items = "map (\<lambda>e. [(''_id'', fst e), (''name'', fst (snd e))])
                (filter (\<lambda>e. snd (snd e) = 0) ss)"
  have 1: "run_endpoint self rem (url, c) w =
      bnd (parallel_for ?P ?ids) (\<lambda>_. bnd (get_sets_regs (mongo_db self) c) (parallel_for ?Q)) ?w0"
    using rec sets
    by (simp add: run_endpoint_def Let_def bnd_py_print bnd_exists bnd_get_records_regs docs_of_def
          find_pending_records parallel_for_ids)
  have 2: "bnd (parallel_for ?P ?ids) (\<lambda>_. bnd (get_sets_regs (mongo_db self) c) (parallel_for ?Q)) ?w0 =
           bnd (parallel_for ?P ?ids) (\<lambda>_. parallel_for ?Q ?items) ?w0"
  proof (rule bnd_cong_after)
    fix a w'
    assume r: "parallel_for ?P ?ids ?w0 = (Inr a, w')"
    from record_phase_keeps_set_ledger[of self "rem url False" "mongo_db self" c ?ids ?w0 "mongo_db self"] r
    have "colls w' (mongo_db self, c @ ''_sets_checkpoint'') = Some (map set_entry ss)"
      using sets by simp
    then have "get_sets_regs (mongo_db self) c w' = (Inr ?items, w')"
      by (simp add: get_sets_regs_def find_excluding_def docs_of_def find_pending_sets)
    then show "bnd (get_sets_regs (mongo_db self) c) (parallel_for ?Q) w' = parallel_for ?Q ?items w'"
      by (simp add: bnd_def)
  qed
  from 1 2 show ?thesis by simp
qed

section \<open>Record processing\<close>

text \<open>
  Claim C1, as amended. An invocation of \<open>process_record\<close> has one outcome, decided by
  \<open>getRecord\<close>: the Error Record \<open>{_id, instance, item_type = record, msg}\<close> for the errors
  sink when the call raises, the Deletion Marker \<open>{_id}\<close> for the deleted sink when the
  header is flagged deleted, the metadata map with \<open>_id\<close> set for the records sink
  otherwise. When the sink of the database named by the argument holds no document with
  this \<open>_id\<close>, the invocation returns normally and its writes are exactly two, in this
  order: the insert of the outcome document into that sink and the update that sets status
  1 on the entry with this \<open>_id\<close> in the record ledger of the harvester's own database.
  When the sink already holds a document with this \<open>_id\<close>, the insert raises
  \<open>DuplicateKeyError\<close>, which leaves the invocation with nothing written and no ledger
  update.
\<close>

theorem process_record_one_outcome:
  assumes "record_outcome client i = (sfx, d)"
  shows "(has_id (docs_of w (db, c @ sfx)) i \<longrightarrow>
            process_record self client i db c w = (Inl DuplicateKeyError, w)) \<and>
         (\<not> has_id (docs_of w (db, c @ sfx)) i \<longrightarrow>
            fst (process_record self client i db c w) = Inr () \<and>
            oplog (snd (process_record self client i db c w)) =
              oplog w @ [InsertOne (db, c @ sfx) d,
                         done_update (mongo_db self) c ''_records_checkpoint'' i] \<and>
            colls (snd (process_record self client i db c w)) =
              replay [InsertOne (db, c @ sfx) d,
                      done_update (mongo_db self) c ''_records_checkpoint'' i] (colls w) \<and>
            docs_of (snd (process_record self client i db c w)) (db, c @ sfx) =
              docs_of w (db, c @ sfx) @ [d])"
proof (intro conjI impI)
  assume "has_id (docs_of w (db, c @ sfx)) i"
  with assms show "process_record self client i db c w = (Inl DuplicateKeyError, w)"
    by (rule process_record_dup)
next
  assume f: "\<not> has_id (docs_of w (db, c @ sfx)) i"
  let ?ops = "[InsertOne (db, c @ sfx) d, done_update (mongo_db self) c ''_records_checkpoint'' i]"
  from process_record_fresh[OF assms f, where self=self] obtain out where
    r: "process_record self client i db c w =
          (Inr (), w\<lparr>colls := replay ?ops (colls w), oplog := oplog w @ ?ops,
                      stdout := stdout w @ out\<rparr>)"
    by (elim exE)
  show "fst (process_record self client i db c w) = Inr ()" by (simp add: r)
  show "oplog (snd (process_record self client i db c w)) = oplog w @ ?ops" by (simp add: r)
  show "colls (snd (process_record self client i db c w)) = replay ?ops (colls w)" by (simp add: r)
  from record_outcome_sfx[OF assms]
  show "docs_of (snd (process_record self client i db c w)) (db, c @ sfx) = docs_of w (db, c @ sfx) @ [d]"
    by (auto simp add: r replay_def done_update_def docs_of_def split: option.splits)
qed

text \<open>
  The theorem at the scenario's record \<open>A\<close>, on the store as \<open>create\<close> left it.
\<close>

theorem process_record_one_outcome_witness:
  "record_outcome demo_client (VStr ''A'') =
     (''_records'', [(''title'', VList [VStr ''T'']), (''_id'', VStr ''A'')]) \<and>
   \<not> has_id (docs_of created_world (''dspace'', ''uni_records'')) (VStr ''A'') \<and>
   fst (process_record demo_harvester demo_client (VStr ''A'') ''dspace'' ''uni'' created_world) = Inr () \<and>
   oplog (snd (process_record demo_harvester demo_client (VStr ''A'') ''dspace'' ''uni'' created_world)) =
     oplog created_world @
       [InsertOne (''dspace'', ''uni_records'') [(''title'', VList [VStr ''T'']), (''_id'', VStr ''A'')],
        done_update ''dspace'' ''uni'' ''_records_checkpoint'' (VStr ''A'')]"
proof -
  have o: "record_outcome demo_client (VStr ''A'') =
     (''_records'', [(''title'', VList [VStr ''T'']), (''_id'', VStr ''A'')])"
    by (simp add: record_outcome_def demo_defs)
  have f: "\<not> has_id (docs_of created_world (''dspace'', ''uni'' @ ''_records'')) (VStr ''A'')"
    by (simp add: docs_of_def has_id_def created_world_colls created_colls_def)
  from process_record_one_outcome[OF o, where w=created_world and db="''dspace''" and c="''uni''"
      and self=demo_harvester] f o
  show ?thesis by (simp add: demo_harvester_def)
qed

text \<open>
  Claim C1 as stated fails where the outcome of \<open>A\<close> was stored by a run that was
  interrupted before its ledger update: the next invocation for \<open>A\<close> raises, writes no
  outcome document and makes no ledger transition.
\<close>

theorem process_record_duplicate_counterexample:
  "process_record demo_harvester demo_client (VStr ''A'') ''dspace'' ''uni'' interrupted_world =
     (Inl DuplicateKeyError, interrupted_world)"
proof -
  have o: "record_outcome demo_client (VStr ''A'') =
     (''_records'', [(''title'', VList [VStr ''T'']), (''_id'', VStr ''A'')])"
    by (simp add: record_outcome_def demo_defs)
  have f: "has_id (docs_of interrupted_world (''dspace'', ''uni'' @ ''_records'')) (VStr ''A'')"
    by (simp add: interrupted_world_def insert_one_eval dict_get_simps docs_of_def has_id_def
          created_world_colls created_colls_def)
  from process_record_dup[OF o f] show ?thesis .
qed

section \<open>Set processing\<close>

text \<open>
  Claim C2 at a failing input. The member listing of set \<open>s1\<close> yields \<open>A\<close> and
  then raises while it is iterated: \<open>process_set\<close> lets the exception out, writes no
  Error Record and leaves the set ledger alone, since the loop stands after the \<open>try\<close>.
  When the listing call itself raises, the Error Record is written, with the whole set
  item \<open>{_id, name}\<close> as its \<open>_id\<close>.
\<close>

theorem process_set_iteration_failure_escapes:
  "process_set demo_harvester flaky_client set_item ''dspace'' ''uni'' created_world =
     (Inl timed_out, created_world) \<and>
   colls (snd (process_set demo_harvester down_client set_item ''dspace'' ''uni'' created_world))
     (''dspace'', ''uni_errors'') = Some [error_record (VDoc set_item) ''set'' timed_out]"
  by (simp add: process_set_def pure_bnd_def py_getitem_def collect_def io_defs demo_defs dict_get_simps
       insert_one_eval update_set_def update_one_def docs_of_def has_id_def created_world_colls created_colls_def
       error_record_def)

section \<open>Order of the outcome write and the ledger update\<close>



section \<open>The database of the outcome and the database of the ledger update\<close>



section \<open>The scenario of the specification\<close>

text \<open>
  Claim C5. The checkpoint of the scenario holds \<open>A\<close>, \<open>B\<close>, \<open>C\<close> pending in the
  record ledger and \<open>{s1, Set One}\<close> pending in the set ledger. One run over the endpoint
  returns normally and leaves a Harvested Record for \<open>A\<close>, a Deletion Marker for \<open>B\<close>,
  an Error Record of kind record for \<open>C\<close>, the Harvested Set \<open>s1\<close> with members
  \<open>A, B\<close>, and every ledger entry done.
\<close>

theorem scenario_run:
  "colls created_world (''dspace'', ''uni_records_checkpoint'') =
     Some [record_entry (VStr ''A'', 0), record_entry (VStr ''B'', 0), record_entry (VStr ''C'', 0)] \<and>
   colls created_world (''dspace'', ''uni_sets_checkpoint'') =
     Some [set_entry (VStr ''s1'', VStr ''Set One'', 0)] \<and>
   fst (run demo_harvester demo_remote created_world) = Inr () \<and>
   map (\<lambda>sfx. colls harvested_world (''dspace'', ''uni'' @ sfx))
     [''_records'', ''_deleted'', ''_errors'', ''_sets'', ''_records_checkpoint'', ''_sets_checkpoint''] =
   [Some [[(''title'', VList [VStr ''T'']), (''_id'', VStr ''A'')]],
    Some [[(''_id'', VStr ''B'')]],
    Some [error_record (VStr ''C'') ''record'' no_such_id],
    Some [[(''_id'', VStr ''s1''), (''name'', VStr ''Set One''), (''records'', VList [VStr ''A'', VStr ''B''])]],
    Some [record_entry (VStr ''A'', 1), record_entry (VStr ''B'', 1), record_entry (VStr ''C'', 1)],
    Some [set_entry (VStr ''s1'', VStr ''Set One'', 1)]]"
proof (intro conjI)
  show "colls created_world (''dspace'', ''uni_records_checkpoint'') =
     Some [record_entry (VStr ''A'', 0), record_entry (VStr ''B'', 0), record_entry (VStr ''C'', 0)]"
    by (simp add: created_world_colls created_colls_def)
  show "colls created_world (''dspace'', ''uni_sets_checkpoint'') =
     Some [set_entry (VStr ''s1'', VStr ''Set One'', 0)]"
    by (simp add: created_world_colls created_colls_def)
  show "fst (run demo_harvester demo_remote created_world) = Inr ()"
    by (simp add: run_defs ckp_defs io_defs store_defs demo_defs created_world_colls created_colls_def
        record_entry_def set_entry_def dict_get_simps)
  show "map (\<lambda>sfx. colls harvested_world (''dspace'', ''uni'' @ sfx))
     [''_records'', ''_deleted'', ''_errors'', ''_sets'', ''_records_checkpoint'', ''_sets_checkpoint''] =
   [Some [[(''title'', VList [VStr ''T'']), (''_id'', VStr ''A'')]],
    Some [[(''_id'', VStr ''B'')]],
    Some [error_record (VStr ''C'') ''record'' no_such_id],
    Some [[(''_id'', VStr ''s1''), (''name'', VStr ''Set One''), (''records'', VList [VStr ''A'', VStr ''B''])]],
    Some [record_entry (VStr ''A'', 1), record_entry (VStr ''B'', 1), record_entry (VStr ''C'', 1)],
    Some [set_entry (VStr ''s1'', VStr ''Set One'', 1)]]"
    by (rule harvested_world_colls)
qed

section \<open>Endpoints without a checkpoint\<close>

text \<open>
  Claim C8. When the checkpoint of an endpoint does not exist, the pass over that endpoint
  changes nothing but standard output, where it reports that the checkpoint was not
  found and must be created first, and the run goes on with the remaining endpoints.
\<close>

theorem run_skips_endpoint_without_checkpoint:
  assumes "fst (exists (mongo_db self) c w) = Inr False"
  shows "run_endpoint self rem (url, c) w =
           (Inr (), w\<lparr>stdout := stdout w @
              [[S ''=== Processing '', S c, S '' from '', S url, S '' ''],
               [S ''*** Error: checkpoint for '', S url, S '' not found, create it first with ...''],
               [S ''*** Omitting '', S url, S '' '', S c]]\<rparr>) \<and>
         run_endpoints self rem ((url, c) # rest) w =
           run_endpoints self rem rest (w\<lparr>stdout := stdout w @
              [[S ''=== Processing '', S c, S '' from '', S url, S '' ''],
               [S ''*** Error: checkpoint for '', S url, S '' not found, create it first with ...''],
               [S ''*** Omitting '', S url, S '' '', S c]]\<rparr>)"
proof -
  have e: "run_endpoint self rem (url, c) w =
           (Inr (), w\<lparr>stdout := stdout w @
              [[S ''=== Processing '', S c, S '' from '', S url, S '' ''],
               [S ''*** Error: checkpoint for '', S url, S '' not found, create it first with ...''],
               [S ''*** Omitting '', S url, S '' '', S c]]\<rparr>)"
    using assms
    by (auto simp add: run_endpoint_def exists_def collection_listed_def io_defs)
  then show ?thesis by (simp add: bnd_def)
qed

text \<open>The theorem on the empty store, where no checkpoint exists.\<close>

theorem run_skips_endpoint_without_checkpoint_witness:
  "fst (exists (mongo_db demo_harvester) ''uni'' empty_world) = Inr False \<and>
   run_endpoints demo_harvester demo_remote [(''http://repo/oai'', ''uni'')] empty_world =
     (Inr (), empty_world\<lparr>stdout :=
        [[S ''=== Processing '', S ''uni'', S '' from '', S ''http://repo/oai'', S '' ''],
         [S ''*** Error: checkpoint for '', S ''http://repo/oai'', S '' not found, create it first with ...''],
         [S ''*** Omitting '', S ''http://repo/oai'', S '' '', S ''uni'']]\<rparr>)"
proof -
  have h: "fst (exists (mongo_db demo_harvester) ''uni'' empty_world) = Inr False"
    by (simp add: exists_def collection_listed_def empty_world_def)
  from run_skips_endpoint_without_checkpoint[OF h, where rem=demo_remote and url="''http://repo/oai''" and rest="[]"] h
  show ?thesis by (simp add: ret_def empty_world_def)
qed


section \<open>Reading and updating the ledgers\<close>





text \<open>
  Claim C7. On a ledger with one entry per \<open>_id\<close>, \<open>update_record\<close> and \<open>update_set\<close>
  set status done on the entry with the given \<open>_id\<close> and change nothing else in the
  store; they change nothing at all when no entry has this \<open>_id\<close> or when the entry is
  already done. No operation of a run returns a done entry to pending: across
  \<open>update_record\<close>, \<open>update_set\<close>, \<open>process_record\<close>, \<open>process_set\<close> and \<open>run\<close> every
  collection keeps its documents at their places with their \<open>_id\<close>, and a document whose
  status was done is still done.
\<close>

theorem done_is_terminal:
  "(colls w (db, c @ ''_records_checkpoint'') = Some (map record_entry es) \<and>
    distinct (map fst es) \<longrightarrow>
      colls (snd (update_record db c [(''_id'', i)] w)) =
        (colls w)((db, c @ ''_records_checkpoint'') \<mapsto>
           map record_entry (map (\<lambda>e. if fst e = i then (fst e, 1) else e) es)) \<and>
      (i \<notin> fst ` set es \<longrightarrow> colls (snd (update_record db c [(''_id'', i)] w)) = colls w) \<and>
      ((i, 1) \<in> set es \<longrightarrow> colls (snd (update_record db c [(''_id'', i)] w)) = colls w)) \<and>
   (colls w (db, c @ ''_sets_checkpoint'') = Some (map set_entry ss) \<and>
    distinct (map fst ss) \<longrightarrow>
      colls (snd (update_set db c [(''_id'', i)] w)) =
        (colls w)((db, c @ ''_sets_checkpoint'') \<mapsto>
           map set_entry (map (\<lambda>e. if fst e = i then (fst e, fst (snd e), 1) else e) ss)) \<and>
      (i \<notin> fst ` set ss \<longrightarrow> colls (snd (update_set db c [(''_id'', i)] w)) = colls w) \<and>
      ((\<exists>n. (i, n, 1) \<in> set ss) \<longrightarrow> colls (snd (update_set db c [(''_id'', i)] w)) = colls w)) \<and>
   done_kept w (snd (update_record db c [(''_id'', i)] w)) \<and>
   done_kept w (snd (update_set db c [(''_id'', i)] w)) \<and>
   done_kept w (snd (process_record self client i db c w)) \<and>
   done_kept w (snd (process_set self client s db c w)) \<and>
   done_kept w (snd (run self rem w))"
proof (intro conjI impI)
  assume a: "colls w (db, c @ ''_records_checkpoint'') = Some (map record_entry es) \<and>
    distinct (map fst es)"
  then have ledger: "colls w (db, c @ ''_records_checkpoint'') = Some (map record_entry es)"
    and dist: "distinct (map fst es)" by simp_all
  show u: "colls (snd (update_record db c [(''_id'', i)] w)) =
        (colls w)((db, c @ ''_records_checkpoint'') \<mapsto>
           map record_entry (map (\<lambda>e. if fst e = i then (fst e, 1) else e) es))"
    using ledger update_first_records[OF dist, of i]
    by (simp add: update_record_def update_one_def)
  {
    assume "i \<notin> fst ` set es"
    then have "map (\<lambda>e. if fst e = i then (fst e, 1) else e) es = es"
      by (intro map_idI) auto
    with u ledger show "colls (snd (update_record db c [(''_id'', i)] w)) = colls w"
      by (simp add: fun_upd_idem)
  }
  {
    assume "(i, 1) \<in> set es"
    with dist have "map (\<lambda>e. if fst e = i then (fst e, 1) else e) es = es"
      by (intro map_idI) (auto simp: distinct_map inj_on_def)
    with u ledger show "colls (snd (update_record db c [(''_id'', i)] w)) = colls w"
      by (simp add: fun_upd_idem)
  }
next
  assume a: "colls w (db, c @ ''_sets_checkpoint'') = Some (map set_entry ss) \<and>
    distinct (map fst ss)"
  then have ledger: "colls w (db, c @ ''_sets_checkpoint'') = Some (map set_entry ss)"
    and dist: "distinct (map fst ss)" by simp_all
  show u: "colls (snd (update_set db c [(''_id'', i)] w)) =
        (colls w)((db, c @ ''_sets_checkpoint'') \<mapsto>
           map set_entry (map (\<lambda>e. if fst e = i then (fst e, fst (snd e), 1) else e) ss))"
    using ledger update_first_sets[OF dist, of i]
    by (simp add: update_set_def update_one_def)
  {
    assume "i \<notin> fst ` set ss"
    then have "map (\<lambda>e. if fst e = i then (fst e, fst (snd e), 1) else e) ss = ss"
      by (intro map_idI) auto
    with u ledger show "colls (snd (update_set db c [(''_id'', i)] w)) = colls w"
      by (simp add: fun_upd_idem)
  }
  {
    assume "\<exists>n. (i, n, 1) \<in> set ss"
    then obtain n where n: "(i, n, 1) \<in> set ss" ..
    have "map (\<lambda>e. if fst e = i then (fst e, fst (snd e), 1) else e) ss = ss"
    proof (intro map_idI)
      fix x assume x: "x \<in> set ss"
      show "(if fst x = i then (fst x, fst (snd x), 1) else x) = x"
      proof (cases "fst x = i")
        case True
        with dist x n have "x = (i, n, 1)"
          by (auto simp: distinct_map inj_on_def)
        then show ?thesis by simp
      next
        case False then show ?thesis by simp
      qed
    qed
    with u ledger show "colls (snd (update_set db c [(''_id'', i)] w)) = colls w"
      by (simp add: fun_upd_idem)
  }
next
  show "done_kept w (snd (update_record db c [(''_id'', i)] w))"
    by (simp add: update_record_def done_kept_update_one)
  show "done_kept w (snd (update_set db c [(''_id'', i)] w))"
    by (simp add: update_set_def done_kept_update_one)
  show "done_kept w (snd (process_record self client i db c w))"
    by (rule done_kept_process_record)
  show "done_kept w (snd (process_set self client s db c w))"
    by (rule done_kept_process_set)
  show "done_kept w (snd (run self rem w))"
    by (rule done_kept_run)
qed


text \<open>
  The theorem on the store after the scenario's run, where every entry is done: marking
  \<open>A\<close> or \<open>s1\<close> again, or the unknown \<open>Z\<close>, changes nothing, and a second run keeps
  every entry done.
\<close>

theorem done_is_terminal_witness:
  "colls harvested_world (''dspace'', ''uni_records_checkpoint'') =
     Some (map record_entry [(VStr ''A'', 1), (VStr ''B'', 1), (VStr ''C'', 1)]) \<and>
   distinct (map fst [(VStr ''A'', 1::int), (VStr ''B'', 1), (VStr ''C'', 1)]) \<and>
   (VStr ''A'', 1) \<in> set [(VStr ''A'', 1::int), (VStr ''B'', 1), (VStr ''C'', 1)] \<and>
   colls (snd (update_record ''dspace'' ''uni'' [(''_id'', VStr ''A'')] harvested_world)) =
     colls harvested_world \<and>
   VStr ''Z'' \<notin> fst ` set [(VStr ''A'', 1::int), (VStr ''B'', 1), (VStr ''C'', 1)] \<and>
   colls (snd (update_record ''dspace'' ''uni'' [(''_id'', VStr ''Z'')] harvested_world)) =
     colls harvested_world \<and>
   colls harvested_world (''dspace'', ''uni_sets_checkpoint'') =
     Some (map set_entry [(VStr ''s1'', VStr ''Set One'', 1)]) \<and>
   colls (snd (update_set ''dspace'' ''uni'' [(''_id'', VStr ''s1'')] harvested_world)) =
     colls harvested_world \<and>
   colls (snd (update_set ''dspace'' ''uni'' [(''_id'', VStr ''Z'')] harvested_world)) =
     colls harvested_world \<and>
   done_kept harvested_world (snd (run demo_harvester demo_remote harvested_world))"
proof -
  let ?es = "[(VStr ''A'', 1::int), (VStr ''B'', 1), (VStr ''C'', 1)]"
  let ?ss = "[(VStr ''s1'', VStr ''Set One'', 1::int)]"
  from harvested_world_colls
  have r: "colls harvested_world (''dspace'', ''uni'' @ ''_records_checkpoint'') =
             Some (map record_entry ?es)"
    and s: "colls harvested_world (''dspace'', ''uni'' @ ''_sets_checkpoint'') =
             Some (map set_entry ?ss)"
    by simp_all
  have d: "distinct (map fst ?es)" and d': "distinct (map fst ?ss)" by simp_all
  have a: "(VStr ''A'', 1) \<in> set ?es" and z: "VStr ''Z'' \<notin> fst ` set ?es" by simp_all
  have a': "\<exists>n. (VStr ''s1'', n, 1) \<in> set ?ss" and z': "VStr ''Z'' \<notin> fst ` set ?ss" by simp_all
  note A = done_is_terminal[where w=harvested_world and db="''dspace''" and c="''uni''"
      and es="?es" and ss="?ss" and i="VStr ''A''" and self=demo_harvester and rem=demo_remote
      and client=demo_client and s=set_item]
  note Z = done_is_terminal[where w=harvested_world and db="''dspace''" and c="''uni''"
      and es="?es" and ss="?ss" and i="VStr ''Z''" and self=demo_harvester and rem=demo_remote
      and client=demo_client and s=set_item]
  note S1 = done_is_terminal[where w=harvested_world and db="''dspace''" and c="''uni''"
      and es="?es" and ss="?ss" and i="VStr ''s1''" and self=demo_harvester and rem=demo_remote
      and client=demo_client and s=set_item]
  from A r d a have 1: "colls (snd (update_record ''dspace'' ''uni'' [(''_id'', VStr ''A'')] harvested_world)) =
     colls harvested_world" by blast
  from Z r d z have 2: "colls (snd (update_record ''dspace'' ''uni'' [(''_id'', VStr ''Z'')] harvested_world)) =
     colls harvested_world" by blast
  from S1 s d' a' have 3: "colls (snd (update_set ''dspace'' ''uni'' [(''_id'', VStr ''s1'')] harvested_world)) =
     colls harvested_world" by blast
  from Z s d' z' have 4: "colls (snd (update_set ''dspace'' ''uni'' [(''_id'', VStr ''Z'')] harvested_world)) =
     colls harvested_world" by blast
  from A have 5: "done_kept harvested_world (snd (run demo_harvester demo_remote harvested_world))"
    by blast
  from r s d a z 1 2 3 4 5 show ?thesis by simp
qed



section \<open>Creating the checkpoint\<close>

text \<open>
  Claim C4, as amended. \<open>create\<close> catches nothing, so a failing adapter call propagates
  to the caller; what has been written by then depends on the call. When \<open>identify\<close>
  raises, nothing has been written. When the listing of record identifiers raises, at the
  call or while it is iterated, the identity collection has been dropped and its new
  document inserted, and both ledgers are as they were. When the listing of sets raises, at
  the call or while it is iterated, the identity collection and the record ledger have
  been replaced in full (dropped, then every listed identifier inserted as pending) and the
  set ledger is as it was. In each case a collection is either untouched or wholly
  replaced.
\<close>

theorem create_failure_leaves_whole_collections:
  "(identify (rem url f) = Inl e \<longrightarrow> create rem url db c f w = (Inl e, w)) \<and>
   (identify (rem url f) = Inr idn \<and>
    (listIdentifiers (rem url f) None = Inl e \<or>
     listIdentifiers (rem url f) None = Inr (PyIter hs (Some e))) \<longrightarrow>
      fst (create rem url db c f w) = Inl e \<and>
      oplog (snd (create rem url db c f w)) = oplog w @ identity_writes db c (next_oid w) idn \<and>
      colls (snd (create rem url db c f w)) =
        replay (identity_writes db c (next_oid w) idn) (colls w) \<and>
      colls (snd (create rem url db c f w)) (db, c @ ''_records_checkpoint'') =
        colls w (db, c @ ''_records_checkpoint'') \<and>
      colls (snd (create rem url db c f w)) (db, c @ ''_sets_checkpoint'') =
        colls w (db, c @ ''_sets_checkpoint'')) \<and>
   (identify (rem url f) = Inr idn \<and>
    listIdentifiers (rem url f) None = Inr (PyIter hs None) \<and> hs \<noteq> [] \<and>
    distinct (map hdr_identifier hs) \<and>
    (listSets (rem url f) = Inl e \<or> listSets (rem url f) = Inr (PyIter ss (Some e))) \<longrightarrow>
      fst (create rem url db c f w) = Inl e \<and>
      oplog (snd (create rem url db c f w)) =
        oplog w @ identity_writes db c (next_oid w) idn @ record_writes db c hs \<and>
      colls (snd (create rem url db c f w)) =
        replay (identity_writes db c (next_oid w) idn @ record_writes db c hs) (colls w) \<and>
      colls (snd (create rem url db c f w)) (db, c @ ''_records_checkpoint'') =
        Some (record_ledger hs) \<and>
      colls (snd (create rem url db c f w)) (db, c @ ''_sets_checkpoint'') =
        colls w (db, c @ ''_sets_checkpoint''))"
proof (intro conjI impI)
  assume "identify (rem url f) = Inl e"
  then show "create rem url db c f w = (Inl e, w)" by (rule create_identify_fails[where rem=rem and url=url and f=f])
next
  assume a: "identify (rem url f) = Inr idn \<and>
    (listIdentifiers (rem url f) None = Inl e \<or>
     listIdentifiers (rem url f) None = Inr (PyIter hs (Some e)))"
  then have "\<exists>out. create rem url db c f w =
               (Inl e, after_writes (identity_writes db c (next_oid w) idn) 1 out w)"
  proof (elim conjE disjE)
    assume "identify (rem url f) = Inr idn" "listIdentifiers (rem url f) None = Inl e"
    from create_listing_call_fails[where rem=rem and url=url and f=f, OF this] show ?thesis by (intro exI[where x="[]"])
  next
    assume "identify (rem url f) = Inr idn"
      "listIdentifiers (rem url f) None = Inr (PyIter hs (Some e))"
    from create_listing_iteration_fails[where rem=rem and url=url and f=f, OF this] show ?thesis
      by (intro exI[where x="[[S ''=== Getting Records ids from '', S url, S ''  for '', S c]]"])
  qed
  then obtain out where r: "create rem url db c f w =
               (Inl e, after_writes (identity_writes db c (next_oid w) idn) 1 out w)"
    by (elim exE)
  show "fst (create rem url db c f w) = Inl e" by (simp add: r)
  show "oplog (snd (create rem url db c f w)) = oplog w @ identity_writes db c (next_oid w) idn"
    by (simp add: r oplog_after_writes)
  show "colls (snd (create rem url db c f w)) =
        replay (identity_writes db c (next_oid w) idn) (colls w)"
    by (simp add: r colls_after_writes)
  show "colls (snd (create rem url db c f w)) (db, c @ ''_records_checkpoint'') =
        colls w (db, c @ ''_records_checkpoint'')"
    by (simp add: r colls_after_writes identity_writes_def replay_def)
  show "colls (snd (create rem url db c f w)) (db, c @ ''_sets_checkpoint'') =
        colls w (db, c @ ''_sets_checkpoint'')"
    by (simp add: r colls_after_writes identity_writes_def replay_def)
next
  assume a: "identify (rem url f) = Inr idn \<and>
    listIdentifiers (rem url f) None = Inr (PyIter hs None) \<and> hs \<noteq> [] \<and>
    distinct (map hdr_identifier hs) \<and>
    (listSets (rem url f) = Inl e \<or> listSets (rem url f) = Inr (PyIter ss (Some e)))"
  then have "\<exists>out. create rem url db c f w =
               (Inl e, after_writes (identity_writes db c (next_oid w) idn @ record_writes db c hs)
                  1 out w)"
  proof (elim conjE disjE)
    assume "identify (rem url f) = Inr idn" "listIdentifiers (rem url f) None = Inr (PyIter hs None)"
      "hs \<noteq> []" "distinct (map hdr_identifier hs)" "listSets (rem url f) = Inl e"
    from create_sets_call_fails[where rem=rem and url=url and f=f, OF this] show ?thesis
      by (intro exI[where x="records_out url c (length hs)"])
  next
    assume "identify (rem url f) = Inr idn" "listIdentifiers (rem url f) None = Inr (PyIter hs None)"
      "hs \<noteq> []" "distinct (map hdr_identifier hs)" "listSets (rem url f) = Inr (PyIter ss (Some e))"
    from create_sets_iteration_fails[where rem=rem and url=url and f=f, OF this] show ?thesis
      by (intro exI[where x="records_out url c (length hs) @
               [[S ''=== Getting Sets ids from '', S url, S ''  for '', S c]]"])
  qed
  then obtain out where r: "create rem url db c f w =
               (Inl e, after_writes (identity_writes db c (next_oid w) idn @ record_writes db c hs)
                  1 out w)"
    by (elim exE)
  show "fst (create rem url db c f w) = Inl e" by (simp add: r)
  show "oplog (snd (create rem url db c f w)) =
        oplog w @ identity_writes db c (next_oid w) idn @ record_writes db c hs"
    by (simp add: r oplog_after_writes)
  show "colls (snd (create rem url db c f w)) =
        replay (identity_writes db c (next_oid w) idn @ record_writes db c hs) (colls w)"
    by (simp add: r colls_after_writes)
  show "colls (snd (create rem url db c f w)) (db, c @ ''_records_checkpoint'') =
        Some (record_ledger hs)"
    by (simp add: r colls_after_writes identity_writes_def record_writes_def replay_def)
  show "colls (snd (create rem url db c f w)) (db, c @ ''_sets_checkpoint'') =
        colls w (db, c @ ''_sets_checkpoint'')"
    by (simp add: r colls_after_writes identity_writes_def record_writes_def replay_def)
qed

text \<open>
  The theorem on the empty store, for an endpoint that does not answer \<open>identify\<close>, one
  whose record listing fails and one whose set listing fails.
\<close>

theorem create_failure_leaves_whole_collections_witness:
  "identify (remote_of unreachable_client ''http://repo/oai'' True) = Inl timed_out \<and>
   create (remote_of unreachable_client) ''http://repo/oai'' ''dspace'' ''uni'' True empty_world =
     (Inl timed_out, empty_world) \<and>
   identify (remote_of down_client ''http://repo/oai'' True) = Inr demo_identity \<and>
   listIdentifiers (remote_of down_client ''http://repo/oai'' True) None = Inl timed_out \<and>
   fst (create (remote_of down_client) ''http://repo/oai'' ''dspace'' ''uni'' True empty_world) =
     Inl timed_out \<and>
   oplog (snd (create (remote_of down_client) ''http://repo/oai'' ''dspace'' ''uni'' True empty_world)) =
     identity_writes ''dspace'' ''uni'' 0 demo_identity \<and>
   listSets (remote_of sets_down_client ''http://repo/oai'' True) = Inl timed_out \<and>
   fst (create (remote_of sets_down_client) ''http://repo/oai'' ''dspace'' ''uni'' True empty_world) =
     Inl timed_out \<and>
   oplog (snd (create (remote_of sets_down_client) ''http://repo/oai'' ''dspace'' ''uni'' True
                 empty_world)) =
     identity_writes ''dspace'' ''uni'' 0 demo_identity @ record_writes ''dspace'' ''uni'' [hA, hB, hC]"
proof -
  have i1: "identify (remote_of unreachable_client ''http://repo/oai'' True) = Inl timed_out"
    by (simp add: remote_of_def unreachable_client_def)
  have i2: "identify (remote_of down_client ''http://repo/oai'' True) = Inr demo_identity"
    and l2: "listIdentifiers (remote_of down_client ''http://repo/oai'' True) None = Inl timed_out"
    by (simp_all add: remote_of_def down_client_def demo_client_def)
  have i3: "identify (remote_of sets_down_client ''http://repo/oai'' True) = Inr demo_identity"
    and l3: "listIdentifiers (remote_of sets_down_client ''http://repo/oai'' True) None =
               Inr (PyIter [hA, hB, hC] None)"
    and s3: "listSets (remote_of sets_down_client ''http://repo/oai'' True) = Inl timed_out"
    by (simp_all add: remote_of_def sets_down_client_def demo_client_def)
  have d3: "[hA, hB, hC] \<noteq> []" "distinct (map hdr_identifier [hA, hB, hC])"
    by (simp_all add: hA_def hB_def hC_def)
  note T1 = create_failure_leaves_whole_collections[where rem="remote_of unreachable_client"
      and url="''http://repo/oai''" and f=True and db="''dspace''" and c="''uni''"
      and w=empty_world and e=timed_out and idn=demo_identity and hs="[]" and ss="[]"]
  note T2 = create_failure_leaves_whole_collections[where rem="remote_of down_client"
      and url="''http://repo/oai''" and f=True and db="''dspace''" and c="''uni''"
      and w=empty_world and e=timed_out and idn=demo_identity and hs="[]" and ss="[]"]
  note T3 = create_failure_leaves_whole_collections[where rem="remote_of sets_down_client"
      and url="''http://repo/oai''" and f=True and db="''dspace''" and c="''uni''"
      and w=empty_world and e=timed_out and idn=demo_identity and hs="[hA, hB, hC]" and ss="[]"]
  from T1 i1 have 1: "create (remote_of unreachable_client) ''http://repo/oai'' ''dspace'' ''uni''
      True empty_world = (Inl timed_out, empty_world)" by blast
  from T2 i2 l2 have 2: "fst (create (remote_of down_client) ''http://repo/oai'' ''dspace'' ''uni''
      True empty_world) = Inl timed_out \<and>
    oplog (snd (create (remote_of down_client) ''http://repo/oai'' ''dspace'' ''uni'' True empty_world)) =
     oplog empty_world @ identity_writes ''dspace'' ''uni'' (next_oid empty_world) demo_identity"
    by blast
  from T3 i3 l3 d3 s3 have 3: "fst (create (remote_of sets_down_client) ''http://repo/oai''
      ''dspace'' ''uni'' True empty_world) = Inl timed_out \<and>
    oplog (snd (create (remote_of sets_down_client) ''http://repo/oai'' ''dspace'' ''uni'' True
                 empty_world)) =
     oplog empty_world @ identity_writes ''dspace'' ''uni'' (next_oid empty_world) demo_identity @
       record_writes ''dspace'' ''uni'' [hA, hB, hC]"
    by blast
  from i1 1 i2 l2 2 s3 3 show ?thesis by (simp add: empty_world_def)
qed

text \<open>
  Claim C4 as stated fails for the endpoint whose set listing raises: the error
  propagates, and by then the identity document and the three ledger entries have been
  inserted, which are writes other than drops.
\<close>

theorem create_partial_writes_counterexample:
  "fst (create (remote_of sets_down_client) ''http://repo/oai'' ''dspace'' ''uni'' True empty_world) =
     Inl timed_out \<and>
   oplog (snd (create (remote_of sets_down_client) ''http://repo/oai'' ''dspace'' ''uni'' True
                 empty_world)) =
     [Drop (''dspace'', ''uni_identity''),
      InsertOne (''dspace'', ''uni_identity'') ((''_id'', VOid 0) # identity_info demo_identity),
      Drop (''dspace'', ''uni_records_checkpoint''),
      InsertMany (''dspace'', ''uni_records_checkpoint'')
        [record_entry (VStr ''A'', 0), record_entry (VStr ''B'', 0), record_entry (VStr ''C'', 0)]] \<and>
   colls (snd (create (remote_of sets_down_client) ''http://repo/oai'' ''dspace'' ''uni'' True
                 empty_world)) (''dspace'', ''uni_records_checkpoint'') =
     Some [record_entry (VStr ''A'', 0), record_entry (VStr ''B'', 0), record_entry (VStr ''C'', 0)]"
  by (simp add: create_def io_defs store_defs demo_defs collect_def identity_info_def
        record_entry_def dict_get_simps)

text \<open>
  Claim C9. When the listing of record identifiers yields nothing, \<open>insert_many\<close> of the
  empty list raises \<open>TypeError\<close> right after the record ledger was dropped, so \<open>create\<close>
  fails and leaves no record ledger; the same holds of the set ledger when the listing of
  sets yields nothing. A \<open>create\<close> that returns normally has left both ledgers with at
  least one entry.
\<close>

theorem create_rejects_empty_listing:
  "(identify (rem url f) = Inr idn \<and>
    listIdentifiers (rem url f) None = Inr (PyIter [] None) \<longrightarrow>
      fst (create rem url db c f w) = Inl TypeError \<and>
      oplog (snd (create rem url db c f w)) =
        oplog w @ identity_writes db c (next_oid w) idn @ [Drop (db, c @ ''_records_checkpoint'')] \<and>
      colls (snd (create rem url db c f w)) (db, c @ ''_records_checkpoint'') = None) \<and>
   (identify (rem url f) = Inr idn \<and>
    listIdentifiers (rem url f) None = Inr (PyIter hs None) \<and> hs \<noteq> [] \<and>
    distinct (map hdr_identifier hs) \<and> listSets (rem url f) = Inr (PyIter [] None) \<longrightarrow>
      fst (create rem url db c f w) = Inl TypeError \<and>
      oplog (snd (create rem url db c f w)) =
        oplog w @ identity_writes db c (next_oid w) idn @ record_writes db c hs @
          [Drop (db, c @ ''_sets_checkpoint'')] \<and>
      colls (snd (create rem url db c f w)) (db, c @ ''_sets_checkpoint'') = None) \<and>
   (fst (create rem url db c f w) = Inr () \<longrightarrow>
      (\<exists>hs ss. hs \<noteq> [] \<and> ss \<noteq> [] \<and>
         colls (snd (create rem url db c f w)) (db, c @ ''_records_checkpoint'') =
           Some (record_ledger hs) \<and>
         colls (snd (create rem url db c f w)) (db, c @ ''_sets_checkpoint'') =
           Some (set_ledger ss)))"
proof (intro conjI impI)
  assume a: "identify (rem url f) = Inr idn \<and>
    listIdentifiers (rem url f) None = Inr (PyIter [] None)"
  then have i: "identify (rem url f) = Inr idn"
    and l: "listIdentifiers (rem url f) None = Inr (PyIter [] None)" by simp_all
  note r = create_listing_empty[where rem=rem and url=url and f=f, OF i l, of db c w]
  show "fst (create rem url db c f w) = Inl TypeError" by (simp add: r)
  show "oplog (snd (create rem url db c f w)) =
        oplog w @ identity_writes db c (next_oid w) idn @ [Drop (db, c @ ''_records_checkpoint'')]"
    by (simp add: r oplog_after_writes)
  show "colls (snd (create rem url db c f w)) (db, c @ ''_records_checkpoint'') = None"
    by (simp add: r colls_after_writes identity_writes_def replay_def)
next
  assume a: "identify (rem url f) = Inr idn \<and>
    listIdentifiers (rem url f) None = Inr (PyIter hs None) \<and> hs \<noteq> [] \<and>
    distinct (map hdr_identifier hs) \<and> listSets (rem url f) = Inr (PyIter [] None)"
  then have i: "identify (rem url f) = Inr idn"
    and l: "listIdentifiers (rem url f) None = Inr (PyIter hs None)"
    and n: "hs \<noteq> []" and d: "distinct (map hdr_identifier hs)"
    and s: "listSets (rem url f) = Inr (PyIter [] None)" by simp_all
  note r = create_sets_empty[where rem=rem and url=url and f=f, OF i l n d s, of db c w]
  show "fst (create rem url db c f w) = Inl TypeError" by (simp add: r)
  show "oplog (snd (create rem url db c f w)) =
        oplog w @ identity_writes db c (next_oid w) idn @ record_writes db c hs @
          [Drop (db, c @ ''_sets_checkpoint'')]"
    by (simp add: r oplog_after_writes)
  show "colls (snd (create rem url db c f w)) (db, c @ ''_sets_checkpoint'') = None"
    by (simp add: r colls_after_writes identity_writes_def record_writes_def replay_def)
next
  assume ok: "fst (create rem url db c f w) = Inr ()"
  show "\<exists>hs ss. hs \<noteq> [] \<and> ss \<noteq> [] \<and>
         colls (snd (create rem url db c f w)) (db, c @ ''_records_checkpoint'') =
           Some (record_ledger hs) \<and>
         colls (snd (create rem url db c f w)) (db, c @ ''_sets_checkpoint'') =
           Some (set_ledger ss)"
  proof (cases "identify (rem url f)")
    case (Inl e)
    from create_identify_fails[where rem=rem and url=url and f=f, OF Inl, of db c w] ok
    show ?thesis by simp
  next
    case i: (Inr idn)
    show ?thesis
    proof (cases "listIdentifiers (rem url f) None")
      case (Inl e)
      from create_listing_call_fails[where rem=rem and url=url and f=f, OF i Inl, of db c w] ok
      show ?thesis by simp
    next
      case (Inr it)
      obtain hs eo where it: "it = PyIter hs eo" by (cases it)
      show ?thesis
      proof (cases eo)
        case (Some e)
        with Inr it have l: "listIdentifiers (rem url f) None = Inr (PyIter hs (Some e))" by simp
        from create_listing_iteration_fails[where rem=rem and url=url and f=f, OF i l, of db c w] ok
        show ?thesis by simp
      next
        case None
        with Inr it have l: "listIdentifiers (rem url f) None = Inr (PyIter hs None)" by simp
        show ?thesis
        proof (cases "hs = []")
          case True
          with l have l': "listIdentifiers (rem url f) None = Inr (PyIter [] None)" by simp
          from create_listing_empty[where rem=rem and url=url and f=f, OF i l', of db c w] ok
          show ?thesis by simp
        next
          case n: False
          show ?thesis
          proof (cases "distinct (map hdr_identifier hs)")
            case False
            from create_listing_duplicates[where rem=rem and url=url and f=f, OF i l n False, of db c w] ok
            show ?thesis by simp
          next
            case d: True
            show ?thesis
            proof (cases "listSets (rem url f)")
              case (Inl e)
              from create_sets_call_fails[where rem=rem and url=url and f=f, OF i l n d Inl, of db c w] ok
              show ?thesis by simp
            next
              case (Inr st)
              obtain ss eo' where st: "st = PyIter ss eo'" by (cases st)
              show ?thesis
              proof (cases eo')
                case (Some e)
                with Inr st have s: "listSets (rem url f) = Inr (PyIter ss (Some e))" by simp
                from create_sets_iteration_fails[where rem=rem and url=url and f=f, OF i l n d s, of db c w] ok
                show ?thesis by simp
              next
                case None
                with Inr st have s: "listSets (rem url f) = Inr (PyIter ss None)" by simp
                show ?thesis
                proof (cases "ss = []")
                  case True
                  with s have s': "listSets (rem url f) = Inr (PyIter [] None)" by simp
                  from create_sets_empty[where rem=rem and url=url and f=f, OF i l n d s', of db c w] ok
                  show ?thesis by simp
                next
                  case n': False
                  show ?thesis
                  proof (cases "distinct (map fst ss)")
                    case False
                    from create_sets_duplicates[where rem=rem and url=url and f=f, OF i l n d s n' False, of db c w] ok
                    show ?thesis by simp
                  next
                    case True
                    note r = create_succeeds[where rem=rem and url=url and f=f, OF i l n d s n' True, of db c w]
                    have "colls (snd (create rem url db c f w)) (db, c @ ''_records_checkpoint'') =
                            Some (record_ledger hs)"
                      by (simp add: r colls_after_writes identity_writes_def record_writes_def
                            set_writes_def replay_def)
                    moreover
                    have "colls (snd (create rem url db c f w)) (db, c @ ''_sets_checkpoint'') =
                            Some (set_ledger ss)"
                      by (simp add: r colls_after_writes identity_writes_def record_writes_def
                            set_writes_def replay_def)
                    ultimately show ?thesis using n n'
                      by (intro exI[where x=hs] exI[where x=ss]) simp
                  qed
                qed
              qed
            qed
          qed
        qed
      qed
    qed
  qed
qed

text \<open>
  The theorem on the empty store, for an endpoint without records, one without sets, and
  the scenario's endpoint, for which \<open>create\<close> succeeds.
\<close>

theorem create_rejects_empty_listing_witness:
  "identify (remote_of empty_client ''http://repo/oai'' True) = Inr demo_identity \<and>
   listIdentifiers (remote_of empty_client ''http://repo/oai'' True) None = Inr (PyIter [] None) \<and>
   fst (create (remote_of empty_client) ''http://repo/oai'' ''dspace'' ''uni'' True empty_world) =
     Inl TypeError \<and>
   colls (snd (create (remote_of empty_client) ''http://repo/oai'' ''dspace'' ''uni'' True empty_world))
     (''dspace'', ''uni_records_checkpoint'') = None \<and>
   listSets (remote_of no_sets_client ''http://repo/oai'' True) = Inr (PyIter [] None) \<and>
   fst (create (remote_of no_sets_client) ''http://repo/oai'' ''dspace'' ''uni'' True empty_world) =
     Inl TypeError \<and>
   colls (snd (create (remote_of no_sets_client) ''http://repo/oai'' ''dspace'' ''uni'' True
                 empty_world)) (''dspace'', ''uni_sets_checkpoint'') = None \<and>
   fst (create demo_remote ''http://repo/oai'' ''dspace'' ''uni'' True empty_world) = Inr () \<and>
   (\<exists>hs ss. hs \<noteq> [] \<and> ss \<noteq> [] \<and>
      colls created_world (''dspace'', ''uni_records_checkpoint'') = Some (record_ledger hs) \<and>
      colls created_world (''dspace'', ''uni_sets_checkpoint'') = Some (set_ledger ss))"
proof -
  have i1: "identify (remote_of empty_client ''http://repo/oai'' True) = Inr demo_identity"
    and l1: "listIdentifiers (remote_of empty_client ''http://repo/oai'' True) None =
               Inr (PyIter [] None)"
    by (simp_all add: remote_of_def empty_client_def demo_client_def)
  have i2: "identify (remote_of no_sets_client ''http://repo/oai'' True) = Inr demo_identity"
    and l2: "listIdentifiers (remote_of no_sets_client ''http://repo/oai'' True) None =
               Inr (PyIter [hA, hB, hC] None)"
    and s2: "listSets (remote_of no_sets_client ''http://repo/oai'' True) = Inr (PyIter [] None)"
    by (simp_all add: remote_of_def no_sets_client_def demo_client_def)
  have d2: "[hA, hB, hC] \<noteq> []" "distinct (map hdr_identifier [hA, hB, hC])"
    by (simp_all add: hA_def hB_def hC_def)
  have ok: "fst (create demo_remote ''http://repo/oai'' ''dspace'' ''uni'' True empty_world) = Inr ()"
    by (simp add: create_def io_defs store_defs demo_defs collect_def dict_get_simps)
  note T1 = create_rejects_empty_listing[where rem="remote_of empty_client"
      and url="''http://repo/oai''" and f=True and db="''dspace''" and c="''uni''"
      and w=empty_world and idn=demo_identity and hs="[]"]
  note T2 = create_rejects_empty_listing[where rem="remote_of no_sets_client"
      and url="''http://repo/oai''" and f=True and db="''dspace''" and c="''uni''"
      and w=empty_world and idn=demo_identity and hs="[hA, hB, hC]"]
  note T3 = create_rejects_empty_listing[where rem=demo_remote
      and url="''http://repo/oai''" and f=True and db="''dspace''" and c="''uni''"
      and w=empty_world and idn=demo_identity and hs="[]"]
  from T1 i1 l1 have 1: "fst (create (remote_of empty_client) ''http://repo/oai'' ''dspace'' ''uni''
        True empty_world) = Inl TypeError \<and>
      colls (snd (create (remote_of empty_client) ''http://repo/oai'' ''dspace'' ''uni'' True
        empty_world)) (''dspace'', ''uni'' @ ''_records_checkpoint'') = None" by blast
  from T2 i2 l2 d2 s2 have 2: "fst (create (remote_of no_sets_client) ''http://repo/oai'' ''dspace''
        ''uni'' True empty_world) = Inl TypeError \<and>
      colls (snd (create (remote_of no_sets_client) ''http://repo/oai'' ''dspace'' ''uni'' True
        empty_world)) (''dspace'', ''uni'' @ ''_sets_checkpoint'') = None" by blast
  from T3 ok have 3: "\<exists>hs ss. hs \<noteq> [] \<and> ss \<noteq> [] \<and>
      colls (snd (create demo_remote ''http://repo/oai'' ''dspace'' ''uni'' True empty_world))
        (''dspace'', ''uni'' @ ''_records_checkpoint'') = Some (record_ledger hs) \<and>
      colls (snd (create demo_remote ''http://repo/oai'' ''dspace'' ''uni'' True empty_world))
        (''dspace'', ''uni'' @ ''_sets_checkpoint'') = Some (set_ledger ss)" by blast
  from i1 l1 1 s2 2 ok 3 show ?thesis by (simp add: created_world_def)
qed

end
